theory Spec2Isabelle
  imports Main "HOL-Library.AList" "HOL-Library.Sublist"
begin

section \<open>Slash-command documents: the auto-fixer and the validators\<close>

text \<open>
  The development embeds \<^verbatim>\<open>fix_commands.py\<close> (class \<^verbatim>\<open>SlashCommandFixer\<close>),
  \<^verbatim>\<open>validate_commands.py\<close> (class \<^verbatim>\<open>SlashCommandValidator\<close>) and the description check
  of \<^verbatim>\<open>scripts/validate_slash_commands.py\<close>.

  Conventions of the embedding.
  \<^item> A Python \<^verbatim>\<open>str\<close> is a \<open>string\<close>; a character stands for a code point below 256.
    Character classes of the regular expressions (\<^verbatim>\<open>\d\<close>, \<^verbatim>\<open>\w\<close>, \<^verbatim>\<open>\s\<close>) and of
    \<^verbatim>\<open>str.strip\<close> are those of Python 3 on that range.
  \<^item> A metadata value is a string, a boolean or a sequence of strings (section 3 of the
    specification); a metadata dictionary is an association list in insertion order,
    \<open>map_of\<close> is the lookup and \<open>AList.update\<close> is item assignment (an existing key keeps its
    place, a new key goes to the end).
  \<^item> A raised exception is the left summand of a sum type and carries its message.
  \<^item> Reading and writing the file never fail; a write is returned as a value.
\<close>

subsection \<open>Strings\<close>

text \<open>\<^verbatim>\<open>sub in s\<close> on strings.\<close>

fun str_in :: "string \<Rightarrow> string \<Rightarrow> bool" where
  "str_in sub [] = (sub = [])"
| "str_in sub (c # cs) = (prefix sub (c # cs) \<or> str_in sub cs)"

text \<open>\<^verbatim>\<open>sep.join(xs)\<close>.\<close>

fun join :: "string \<Rightarrow> string list \<Rightarrow> string" where
  "join sep [] = []"
| "join sep [x] = x"
| "join sep (x # y # ys) = x @ sep @ join sep (y # ys)"

text \<open>\<^verbatim>\<open>s.split(c)\<close> for a separator of one character: the result is never empty.\<close>

fun split_on :: "char \<Rightarrow> string \<Rightarrow> string list" where
  "split_on sep [] = [[]]"
| "split_on sep (c # cs) =
     (if c = sep then [] # split_on sep cs
      else (case split_on sep cs of [] \<Rightarrow> [[c]] | l # ls \<Rightarrow> (c # l) # ls))"

text \<open>\<^verbatim>\<open>str.isspace\<close> of one character, which is also the class \<^verbatim>\<open>\s\<close>.\<close>

definition is_space :: "char \<Rightarrow> bool" where
  "is_space c = ((of_char c :: nat) \<in> set [9, 10, 11, 12, 13, 28, 29, 30, 31, 32, 133, 160])"

text \<open>The class \<^verbatim>\<open>\d\<close>: below 256 the decimal digits are the ASCII ones.\<close>

definition is_digit :: "char \<Rightarrow> bool" where
  "is_digit c = (c \<in> set ''0123456789'')"

text \<open>The class \<^verbatim>\<open>\w\<close>: alphanumeric characters and the underscore.\<close>

definition is_word :: "char \<Rightarrow> bool" where
  "is_word c =
     (let n = (of_char c :: nat) in
        (48 \<le> n \<and> n \<le> 57) \<or> (65 \<le> n \<and> n \<le> 90) \<or> n = 95 \<or> (97 \<le> n \<and> n \<le> 122)
        \<or> n \<in> set [170, 178, 179, 181, 185, 186, 188, 189, 190]
        \<or> (192 \<le> n \<and> n \<le> 214) \<or> (216 \<le> n \<and> n \<le> 246) \<or> (248 \<le> n \<and> n \<le> 255))"

text \<open>\<^verbatim>\<open>s.strip()\<close>.\<close>

definition strip :: "string \<Rightarrow> string" where
  "strip s = rev (dropWhile is_space (rev (dropWhile is_space s)))"

text \<open>\<^verbatim>\<open>int(ds)\<close> on a string of decimal digits, and \<^verbatim>\<open>str(n)\<close> on an integer.\<close>

definition digit_val :: "char \<Rightarrow> int" where
  "digit_val c = int (of_char c) - 48"

definition int_of_digits :: "string \<Rightarrow> int" where
  "int_of_digits ds = foldl (\<lambda>acc c. 10 * acc + digit_val c) 0 ds"

definition digit_char :: "nat \<Rightarrow> char" where
  "digit_char d = ''0123456789'' ! d"

fun str_nat :: "nat \<Rightarrow> string" where
  "str_nat n = (if n < 10 then [digit_char n] else str_nat (n div 10) @ [digit_char (n mod 10)])"

declare str_nat.simps [simp del]

definition str_int :: "int \<Rightarrow> string" where
  "str_int i = (if i < 0 then CHR ''-'' # str_nat (nat (- i)) else str_nat (nat i))"

text \<open>\<^verbatim>\<open>max(xs)\<close> of a non-empty sequence, the first element given apart.\<close>

definition max_of :: "int \<Rightarrow> int list \<Rightarrow> int" where
  "max_of x xs = fold max xs x"

subsection \<open>Metadata values\<close>

datatype pyval = VStr string | VBool bool | VList "string list"

type_synonym metadata = "(string \<times> pyval) list"

text \<open>An exception, with the text \<^verbatim>\<open>str(e)\<close> gives.\<close>

datatype exn = TypeError string

fun exn_str :: "exn \<Rightarrow> string" where
  "exn_str (TypeError m) = m"

subsection \<open>Detectors of the body conventions\<close>

text \<open>\<^verbatim>\<open>re.findall(r'\$(\d+)', body)\<close>: a dollar sign and the longest run of digits
  after it, which must not be empty; the search goes on behind the match.\<close>

function positional_args :: "string \<Rightarrow> string list" where
  "positional_args [] = []"
| "positional_args (c # cs) =
     (if c = CHR ''$'' \<and> takeWhile is_digit cs \<noteq> []
      then takeWhile is_digit cs # positional_args (dropWhile is_digit cs)
      else positional_args cs)"
  by pat_completeness auto
termination
  by (relation "measure length") (auto simp: length_dropWhile_le less_Suc_eq_le)

declare positional_args.simps [simp del]

text \<open>\<^verbatim>\<open>re.findall(r'!\`([^`]+)\`', body)\<close>: an exclamation mark, a backtick (code 96),
  the longest run of other characters, which must not be empty, and a backtick.\<close>

definition backtick :: char where
  "backtick = CHR 0x60"

function bash_commands :: "string \<Rightarrow> string list" where
  "bash_commands [] = []"
| "bash_commands (c # cs) =
     (case cs of
        b # rest \<Rightarrow>
          (if c = CHR ''!'' \<and> b = backtick \<and> takeWhile (\<lambda>x. x \<noteq> backtick) rest \<noteq> []
               \<and> dropWhile (\<lambda>x. x \<noteq> backtick) rest \<noteq> []
           then takeWhile (\<lambda>x. x \<noteq> backtick) rest
                  # bash_commands (tl (dropWhile (\<lambda>x. x \<noteq> backtick) rest))
           else bash_commands cs)
      | [] \<Rightarrow> bash_commands cs)"
  by pat_completeness auto
termination
proof (relation "measure length")
  show "wf (measure length)" by simp
next
  fix c :: char and cs :: string and b rest
  assume "cs = b # rest"
  have "length (tl (dropWhile (\<lambda>x. x \<noteq> backtick) rest)) \<le> length rest"
    by (metis diff_le_self le_trans length_dropWhile_le length_tl)
  then show "(tl (dropWhile (\<lambda>x. x \<noteq> backtick) rest), c # cs) \<in> measure length"
    using \<open>cs = b # rest\<close> by simp
qed auto

declare bash_commands.simps [simp del]

subsection \<open>The auto-fixer: metadata\<close>

text \<open>\<^verbatim>\<open>str(v)\<close> and \<^verbatim>\<open>f"{v}"\<close> of a string or a boolean.\<close>

definition str_bool :: "bool \<Rightarrow> string" where
  "str_bool b = (if b then ''True'' else ''False'')"

text \<open>\<^verbatim>\<open>' '.join([f'[arg{i}]' for i in range(1, max_arg + 1)])\<close>.\<close>

definition hint_parts :: "int \<Rightarrow> string" where
  "hint_parts max_arg = join '' '' (map (\<lambda>i. ''[arg'' @ str_int i @ '']'') [1..max_arg])"

text \<open>\<^verbatim>\<open>SlashCommandFixer._fix_metadata\<close>: the pair of the new metadata and the fixes.
  The three steps are written apart, each taking the working copy and the fixes so far.\<close>

definition fix_description :: "metadata \<times> string list \<Rightarrow> metadata \<times> string list" where
  "fix_description st =
     (case st of (new_metadata, fixes) \<Rightarrow>
        (case map_of new_metadata ''description'' of
           Some (VList ds) \<Rightarrow>
             (AList.update ''description'' (VStr (join '' '' ds)) new_metadata,
              fixes @ [''Converted description from list to string''])
         | _ \<Rightarrow> (new_metadata, fixes)))"

definition fix_argument_hint_list :: "metadata \<times> string list \<Rightarrow> metadata \<times> string list" where
  "fix_argument_hint_list st =
     (case st of (new_metadata, fixes) \<Rightarrow>
        (case map_of new_metadata ''argument-hint'' of
           Some (VList hs) \<Rightarrow>
             (AList.update ''argument-hint'' (VStr (join '' '' hs)) new_metadata,
              fixes @ [''Converted argument-hint from list to string''])
         | _ \<Rightarrow> (new_metadata, fixes)))"

definition add_argument_hint :: "string \<Rightarrow> metadata \<times> string list \<Rightarrow> metadata \<times> string list" where
  "add_argument_hint body st =
     (case st of (new_metadata, fixes) \<Rightarrow>
        (let has_arguments = str_in ''$ARGUMENTS'' body;
             positional = positional_args body;
             has_positional = (length positional > 0)
         in if (has_arguments \<or> has_positional) \<and> map_of new_metadata ''argument-hint'' = None
            then if has_arguments
                 then (AList.update ''argument-hint'' (VStr ''[args]'') new_metadata,
                       fixes @ [''Added generic argument-hint for $ARGUMENTS usage''])
                 else (case positional of
                         [] \<Rightarrow> (new_metadata, fixes)
                       | n # ns \<Rightarrow>
                           (let max_arg = max_of (int_of_digits n) (map int_of_digits ns)
                            in (AList.update ''argument-hint'' (VStr (hint_parts max_arg)) new_metadata,
                                fixes @ [''Added argument-hint for positional arguments ($1-$''
                                          @ str_int max_arg @ '')''])))
            else (new_metadata, fixes)))"

definition fix_metadata :: "metadata \<Rightarrow> string \<Rightarrow> metadata \<times> string list" where
  "fix_metadata metadata body =
     add_argument_hint body (fix_argument_hint_list (fix_description (metadata, [])))"

text \<open>\<^verbatim>\<open>SlashCommandFixer._check_bash_permissions\<close>. \<^verbatim>\<open>'Bash' not in allowed_tools\<close>
  raises \<^verbatim>\<open>TypeError\<close> on a boolean.\<close>

definition check_bash_permissions :: "metadata \<Rightarrow> string \<Rightarrow> exn + string list" where
  "check_bash_permissions metadata body =
     (if bash_commands body = [] then Inr []
      else (case map_of metadata ''allowed-tools'' of
              None \<Rightarrow> Inr [''Bash commands found but no allowed-tools defined'']
            | Some (VList ts) \<Rightarrow>
                Inr (if \<not> str_in ''Bash'' (join '', '' ts)
                     then [''Bash commands found but Bash not in allowed-tools''] else [])
            | Some (VStr s) \<Rightarrow>
                Inr (if \<not> str_in ''Bash'' s
                     then [''Bash commands found but Bash not in allowed-tools''] else [])
            | Some (VBool b) \<Rightarrow>
                Inl (TypeError ''argument of type 'bool' is not iterable'')))"

text \<open>\<^verbatim>\<open>SlashCommandFixer._add_bash_to_allowed_tools\<close>, on values: what the returned
  dictionary holds. (The sharing of the list object is the subject of a later section.)\<close>

definition add_bash_to_allowed_tools :: "metadata \<Rightarrow> metadata" where
  "add_bash_to_allowed_tools metadata =
     (case map_of metadata ''allowed-tools'' of
        None \<Rightarrow> AList.update ''allowed-tools'' (VStr ''Bash'') metadata
      | Some (VList ts) \<Rightarrow> AList.update ''allowed-tools'' (VList (ts @ [''Bash''])) metadata
      | Some (VStr s) \<Rightarrow> AList.update ''allowed-tools'' (VStr (s @ '', Bash'')) metadata
      | Some (VBool b) \<Rightarrow> AList.update ''allowed-tools'' (VStr (str_bool b @ '', Bash'')) metadata)"

text \<open>Lines 87 to 95 of \<^verbatim>\<open>fix_file\<close>: the metadata fixes, then the permission check on the
  metadata as parsed. An exception leaves the fixes collected before it.\<close>

definition apply_fixes :: "metadata \<Rightarrow> string \<Rightarrow> (string list \<times> exn) + (string list \<times> metadata)" where
  "apply_fixes metadata body =
     (case fix_metadata metadata body of (new_metadata, metadata_fixes) \<Rightarrow>
        (case check_bash_permissions metadata body of
           Inl e \<Rightarrow> Inl (metadata_fixes, e)
         | Inr bash_fixes \<Rightarrow>
             (if bash_fixes \<noteq> []
              then Inr (metadata_fixes @ bash_fixes, add_bash_to_allowed_tools new_metadata)
              else Inr (metadata_fixes, new_metadata))))"

subsection \<open>The auto-fixer: repair of the frontmatter syntax\<close>

definition newline :: char where
  "newline = CHR 0x0A"

definition squote :: char where
  "squote = CHR 0x27"

definition dquote :: char where
  "dquote = CHR 0x22"

definition backslash :: char where
  "backslash = CHR 0x5C"

text \<open>The first occurrence of \<open>sep\<close> in a string: what stands before it and behind it.\<close>

fun split_at_first :: "string \<Rightarrow> string \<Rightarrow> (string \<times> string) option" where
  "split_at_first sep [] = (if sep = [] then Some ([], []) else None)"
| "split_at_first sep (c # cs) =
     (if prefix sep (c # cs) then Some ([], drop (length sep) (c # cs))
      else (case split_at_first sep cs of
              None \<Rightarrow> None
            | Some (a, b) \<Rightarrow> Some (c # a, b)))"

text \<open>\<^verbatim>\<open>re.match(r'^---\n(.*?)\n---\n(.*)$', content, re.DOTALL)\<close>: the groups 1 and 2.
  The lazy group 1 ends at the first closing line behind the opening one; with
  \<^verbatim>\<open>DOTALL\<close> group 2 is all the rest.\<close>

definition fm_match :: "string \<Rightarrow> (string \<times> string) option" where
  "fm_match content =
     (if prefix ''---\<newline>'' content
      then split_at_first ''\<newline>---\<newline>'' (drop 4 content)
      else None)"

text \<open>\<^verbatim>\<open>\s*(.+?)$\<close> under \<^verbatim>\<open>re.MULTILINE\<close>, behind the colon: the value and the length of
  what is consumed. The greedy \<^verbatim>\<open>\s*\<close> also runs over line breaks; the value starts at
  the first character that is no white space and ends at the end of its line. When only
  white space is left the expression backtracks to the last character that is no line
  break, which then is the value.\<close>

definition match_value :: "string \<Rightarrow> (string \<times> nat) option" where
  "match_value t =
     (let ws = takeWhile is_space t; r = dropWhile is_space t
      in if r \<noteq> []
         then Some (takeWhile (\<lambda>c. c \<noteq> newline) r,
                    length ws + length (takeWhile (\<lambda>c. c \<noteq> newline) r))
         else (case dropWhile (\<lambda>c. c = newline) (rev t) of
                 [] \<Rightarrow> None
               | c # front \<Rightarrow> Some ([c], Suc (length front))))"

text \<open>\<^verbatim>\<open>^(\w[\w-]*?):\s*(.+?)$\<close> at the start of a line: key, value and the length of the
  match.\<close>

definition match_field :: "string \<Rightarrow> (string \<times> string \<times> nat) option" where
  "match_field s =
     (let key = takeWhile (\<lambda>c. is_word c \<or> c = CHR ''-'') s;
          behind = dropWhile (\<lambda>c. is_word c \<or> c = CHR ''-'') s
      in case key of
           [] \<Rightarrow> None
         | k # _ \<Rightarrow>
             (case behind of
                [] \<Rightarrow> None
              | c # t \<Rightarrow>
                  if is_word k \<and> c = CHR '':''
                  then (case match_value t of
                          None \<Rightarrow> None
                        | Some (v, n) \<Rightarrow> Some (key, v, length key + 1 + n))
                  else None))"

text \<open>The local function \<^verbatim>\<open>quote_brackets\<close>: the replacement of one match and the fix it
  records; \<open>whole\<close> is \<^verbatim>\<open>match.group(0)\<close>.\<close>

definition quote_brackets :: "string \<Rightarrow> string \<Rightarrow> string \<Rightarrow> string \<times> string list" where
  "quote_brackets key v whole =
     (if CHR ''['' \<in> set v \<and> \<not> (prefix [dquote] v \<or> prefix [squote] v)
      then (key @ '': '' @ [dquote] @ v @ [dquote],
            [''Quoted square brackets in '' @ [squote] @ key @ [squote] @ '' field''])
      else (whole, []))"

text \<open>\<^verbatim>\<open>re.sub(r'^(\w[\w-]*?):\s*(.+?)$', quote_brackets, fm_content, flags=re.MULTILINE)\<close>
  with the fixes the replacement function appends. The argument starts at the start of a
  line. A match ends at the end of a line; where the line does not match, it is copied.\<close>

function quote_fields :: "string \<Rightarrow> string \<times> string list" where
  "quote_fields s =
     (if s = [] then ([], [])
      else (case match_field s of
              Some (key, v, n) \<Rightarrow>
                (case quote_brackets key v (take n s) of (repl, fx) \<Rightarrow>
                   (case drop n s of
                      [] \<Rightarrow> (repl, fx)
                    | c # rest \<Rightarrow>
                        (case quote_fields rest of (out, fx') \<Rightarrow> (repl @ c # out, fx @ fx'))))
            | None \<Rightarrow>
                (case dropWhile (\<lambda>c. c \<noteq> newline) s of
                   [] \<Rightarrow> (s, [])
                 | c # rest \<Rightarrow>
                     (case quote_fields rest of
                        (out, fx') \<Rightarrow> (takeWhile (\<lambda>c. c \<noteq> newline) s @ c # out, fx')))))"
  by pat_completeness auto
termination
proof (relation "measure length")
  show "wf (measure length)" by simp
next
  fix s :: string and x2 x y n c rest
  assume "s \<noteq> []" and "drop n s = c # rest"
  then have "length (c # rest) \<le> length s"
    by (metis diff_le_self length_drop)
  then show "(rest, s) \<in> measure length" by simp
next
  fix s :: string and c rest
  assume "s \<noteq> []" and "dropWhile (\<lambda>c. c \<noteq> newline) s = c # rest"
  then have "length (c # rest) \<le> length s"
    by (metis length_dropWhile_le)
  then show "(rest, s) \<in> measure length" by simp
qed

declare quote_fields.simps [simp del]

text \<open>\<^verbatim>\<open>SlashCommandFixer._fix_frontmatter_syntax\<close>.\<close>

definition fix_frontmatter_syntax :: "string \<Rightarrow> string \<times> string list" where
  "fix_frontmatter_syntax content =
     (case fm_match content of
        None \<Rightarrow> (content, [])
      | Some (fm_content, body) \<Rightarrow>
          (case quote_fields fm_content of
             (fm_content', fixes) \<Rightarrow>
               (''---\<newline>'' @ fm_content' @ ''\<newline>---\<newline>'' @ body, fixes)))"

subsection \<open>The auto-fixer: one file\<close>

text \<open>The library calls \<^verbatim>\<open>frontmatter.loads\<close> and \<^verbatim>\<open>frontmatter.dumps\<close> are parameters of
  the embedding: \<open>loads\<close> returns the metadata and the body, or the message of the exception
  it raises; \<open>dumps\<close> serialises the metadata and the body of a \<^verbatim>\<open>Post\<close>.\<close>

type_synonym loader = "string \<Rightarrow> string + (metadata \<times> string)"

type_synonym dumper = "metadata \<Rightarrow> string \<Rightarrow> string"

text \<open>Lines 68 to 85 of \<^verbatim>\<open>fix_file\<close>: parse, and after a failure repair the syntax once and
  parse again. The result is the list returned at line 85, or the fixes of the repair
  with the metadata and the body.\<close>

definition parse_with_repair :: "loader \<Rightarrow> string \<Rightarrow> string list + (string list \<times> metadata \<times> string)" where
  "parse_with_repair loads content =
     (case loads content of
        Inr (metadata, body) \<Rightarrow> Inr ([], metadata, body)
      | Inl _ \<Rightarrow>
          (case fix_frontmatter_syntax content of
             (content', frontmatter_fixes) \<Rightarrow>
               (case loads content' of
                  Inl e \<Rightarrow> Inl (frontmatter_fixes @ [''Could not parse frontmatter: '' @ e])
                | Inr (metadata, body) \<Rightarrow> Inr (frontmatter_fixes, metadata, body))))"

text \<open>\<^verbatim>\<open>SlashCommandFixer.fix_file\<close> on the content of the file: the list it returns and
  the new content, when it writes one.\<close>

definition fix_file :: "loader \<Rightarrow> dumper \<Rightarrow> bool \<Rightarrow> string \<Rightarrow> string list \<times> string option" where
  "fix_file loads dumps dry_run content =
     (case parse_with_repair loads content of
        Inl fixes \<Rightarrow> (fixes, None)
      | Inr (frontmatter_fixes, metadata, body) \<Rightarrow>
          (case apply_fixes metadata body of
             Inl (metadata_fixes, e) \<Rightarrow>
               (frontmatter_fixes @ metadata_fixes @ [''Unexpected error: '' @ exn_str e], None)
           | Inr (later_fixes, new_metadata) \<Rightarrow>
               (frontmatter_fixes @ later_fixes,
                if frontmatter_fixes @ later_fixes \<noteq> [] \<and> \<not> dry_run
                then Some (dumps new_metadata body) else None)))"

text \<open>A metadata dictionary in which \<^verbatim>\<open>_fix_metadata\<close> finds nothing to fix for a body: no
  list under \<^verbatim>\<open>description\<close> or \<^verbatim>\<open>argument-hint\<close>, and a hint where the body has
  arguments.\<close>

definition settled :: "metadata \<Rightarrow> string \<Rightarrow> bool" where
  "settled metadata body =
     ((case map_of metadata ''description'' of Some (VList ds) \<Rightarrow> False | _ \<Rightarrow> True)
      \<and> (case map_of metadata ''argument-hint'' of
            Some (VList hs) \<Rightarrow> False
          | Some _ \<Rightarrow> True
          | None \<Rightarrow> \<not> str_in ''$ARGUMENTS'' body \<and> positional_args body = []))"

text \<open>The content of the file after a run.\<close>

definition stored :: "string \<Rightarrow> string option \<Rightarrow> string" where
  "stored content written = (case written of None \<Rightarrow> content | Some new_content \<Rightarrow> new_content)"

subsection \<open>The validator of \<^verbatim>\<open>validate_commands.py\<close>\<close>

text \<open>\<^verbatim>\<open>repr\<close> of a string and of a list of strings, which \<^verbatim>\<open>str\<close> of a list shows.
  The quote is the double one when the string holds a single quote and no double one.
  Below 256 the characters that are not printable are the control characters, 127 to
  160 and 173.\<close>

definition hex_digit :: "nat \<Rightarrow> char" where
  "hex_digit d = ''0123456789abcdef'' ! d"

definition printable :: "char \<Rightarrow> bool" where
  "printable c =
     (let n = (of_char c :: nat) in (32 \<le> n \<and> n < 127) \<or> (161 \<le> n \<and> n \<noteq> 173))"

definition repr_char :: "char \<Rightarrow> char \<Rightarrow> string" where
  "repr_char q c =
     (if c = q \<or> c = backslash then [backslash, c]
      else if c = CHR 0x09 then [backslash, CHR ''t'']
      else if c = newline then [backslash, CHR ''n'']
      else if c = CHR 0x0D then [backslash, CHR ''r'']
      else if \<not> printable c
      then [backslash, CHR ''x'', hex_digit (of_char c div 16), hex_digit (of_char c mod 16)]
      else [c])"

definition repr_str :: "string \<Rightarrow> string" where
  "repr_str s =
     (let q = (if squote \<in> set s \<and> dquote \<notin> set s then dquote else squote)
      in q # concat (map (repr_char q) s) @ [q])"

definition repr_list :: "string list \<Rightarrow> string" where
  "repr_list xs = ''['' @ join '', '' (map repr_str xs) @ '']''"

text \<open>\<^verbatim>\<open>str(v)\<close> of a metadata value.\<close>

fun py_str :: "pyval \<Rightarrow> string" where
  "py_str (VStr s) = s"
| "py_str (VBool b) = str_bool b"
| "py_str (VList xs) = repr_list xs"

record validation_result =
  file_path :: string
  is_valid :: bool
  errors :: "string list"
  warnings :: "string list"
  info :: "string list"

definition add_error :: "string \<Rightarrow> validation_result \<Rightarrow> validation_result" where
  "add_error m result = result\<lparr>errors := errors result @ [m], is_valid := False\<rparr>"

definition add_warning :: "string \<Rightarrow> validation_result \<Rightarrow> validation_result" where
  "add_warning m result = result\<lparr>warnings := warnings result @ [m]\<rparr>"

definition add_info :: "string \<Rightarrow> validation_result \<Rightarrow> validation_result" where
  "add_info m result = result\<lparr>info := info result @ [m]\<rparr>"

definition VALID_FRONTMATTER_FIELDS :: "string list" where
  "VALID_FRONTMATTER_FIELDS =
     [''allowed-tools'', ''argument-hint'', ''description'', ''model'',
      ''disable-model-invocation'']"

definition VALID_MODELS :: "string list" where
  "VALID_MODELS =
     [''claude-3-5-sonnet-20241022'', ''claude-3-5-haiku-20241022'',
      ''claude-opus-4-20250514'', ''claude-sonnet-4-5-20250929'']"

text \<open>\<^verbatim>\<open>TOOL_PATTERNS\<close> under \<^verbatim>\<open>re.match\<close>. Without \<^verbatim>\<open>MULTILINE\<close> the anchor \<^verbatim>\<open>$\<close> holds
  at the end and before a line break that ends the string; the dot is any character but
  the line break.\<close>

definition at_end :: "string \<Rightarrow> bool" where
  "at_end r = (r = [] \<or> r = [newline])"

definition chomp :: "string \<Rightarrow> string" where
  "chomp r = (if r \<noteq> [] \<and> last r = newline then butlast r else r)"

definition PLAIN_TOOLS :: "string list" where
  "PLAIN_TOOLS =
     [''Read'', ''Write'', ''Edit'', ''View'', ''Grep'', ''Glob'', ''Task'', ''TodoWrite'',
      ''Create'', ''WebFetch'', ''WebSearch'']"

definition tool_matches :: "string \<Rightarrow> bool" where
  "tool_matches tool =
     ((\<exists>p \<in> set PLAIN_TOOLS. prefix p tool \<and> at_end (drop (length p) tool))
      \<or> (prefix ''Bash('' tool
          \<and> (let r = chomp (drop 5 tool)
             in r \<noteq> [] \<and> last r = CHR '')'' \<and> butlast r \<noteq> [] \<and> newline \<notin> set (butlast r)))
      \<or> (prefix ''SlashCommand'' tool \<and> newline \<notin> set (chomp (drop 12 tool)))
      \<or> (prefix ''mcp__'' tool
          \<and> chomp (drop 5 tool) \<noteq> [] \<and> newline \<notin> set (chomp (drop 5 tool))))"

text \<open>The loop of \<^verbatim>\<open>_validate_allowed_tools\<close> over the tools.\<close>

fun check_tools :: "string list \<Rightarrow> validation_result \<Rightarrow> validation_result" where
  "check_tools [] result = result"
| "check_tools (tool # tools) result =
     (if strip tool = [] then check_tools tools result
      else if tool_matches (strip tool) then check_tools tools result
      else check_tools tools
             (add_warning (''Tool '' @ [squote] @ strip tool @ [squote]
                             @ '' may not be a valid tool name'') result))"

text \<open>\<^verbatim>\<open>SlashCommandValidator._validate_allowed_tools\<close>.\<close>

definition validate_allowed_tools :: "pyval \<Rightarrow> validation_result \<Rightarrow> validation_result" where
  "validate_allowed_tools tools_value result =
     (case tools_value of
        VStr s \<Rightarrow> check_tools (map strip (split_on CHR '','' s)) result
      | VList ts \<Rightarrow> check_tools ts result
      | VBool b \<Rightarrow> add_error '''allowed-tools' must be a string or list'' result)"

text \<open>The checks of \<^verbatim>\<open>_validate_frontmatter\<close> in the order of the source. The names of
  unknown fields are joined in the order of the dictionary (Python iterates a set, in an
  order of its own).\<close>

definition check_unknown_fields :: "metadata \<Rightarrow> validation_result \<Rightarrow> validation_result" where
  "check_unknown_fields metadata result =
     (let unknown_fields = remdups (filter (\<lambda>k. k \<notin> set VALID_FRONTMATTER_FIELDS) (map fst metadata))
      in if unknown_fields \<noteq> []
         then add_warning (''Unknown frontmatter fields: '' @ join '', '' unknown_fields) result
         else result)"

definition check_description :: "metadata \<Rightarrow> validation_result \<Rightarrow> validation_result" where
  "check_description metadata result =
     (case map_of metadata ''description'' of
        None \<Rightarrow> add_warning ''Missing 'description' field (recommended for /help listing)'' result
      | Some v \<Rightarrow>
          (let desc = strip (case v of VList ds \<Rightarrow> join '' '' ds | _ \<Rightarrow> py_str v)
           in if desc = [] then add_error '''description' field is empty'' result
              else if length desc > 200
              then add_warning '''description' is very long (>200 chars). Consider shortening.'' result
              else result))"

text \<open>\<^verbatim>\<open>model not in self.VALID_MODELS\<close> hashes the model: a list raises \<^verbatim>\<open>TypeError\<close>.\<close>

definition check_model :: "metadata \<Rightarrow> validation_result \<Rightarrow> exn + validation_result" where
  "check_model metadata result =
     (case map_of metadata ''model'' of
        None \<Rightarrow> Inr result
      | Some (VList xs) \<Rightarrow> Inl (TypeError (''unhashable type: 'list'' @ [squote]))
      | Some v \<Rightarrow>
          (if (case v of VStr s \<Rightarrow> s \<notin> set VALID_MODELS | _ \<Rightarrow> True)
           then Inr (add_warning (''Model '' @ [squote] @ py_str v @ [squote]
                                   @ '' may not be valid. Check Claude documentation.'') result)
           else Inr result))"

definition truthy :: "pyval \<Rightarrow> bool" where
  "truthy v = (case v of VStr s \<Rightarrow> s \<noteq> [] | VBool b \<Rightarrow> b | VList xs \<Rightarrow> xs \<noteq> [])"

definition check_argument_hint :: "metadata \<Rightarrow> validation_result \<Rightarrow> validation_result" where
  "check_argument_hint metadata result =
     (case map_of metadata ''argument-hint'' of
        None \<Rightarrow> result
      | Some v \<Rightarrow>
          (let hint = (case v of VList hs \<Rightarrow> VStr (join '' '' hs) | _ \<Rightarrow> v)
           in if (if truthy hint then strip (py_str hint) else []) = []
              then add_warning '''argument-hint' is empty'' result
              else result))"

definition check_disable_model_invocation :: "metadata \<Rightarrow> validation_result \<Rightarrow> validation_result" where
  "check_disable_model_invocation metadata result =
     (case map_of metadata ''disable-model-invocation'' of
        None \<Rightarrow> result
      | Some (VBool b) \<Rightarrow> result
      | Some _ \<Rightarrow> add_error '''disable-model-invocation' must be a boolean (true/false)'' result)"

text \<open>\<^verbatim>\<open>SlashCommandValidator._validate_frontmatter\<close>. The result object is changed in
  place, so an exception leaves the diagnostics appended before it.\<close>

definition validate_frontmatter :: "metadata \<Rightarrow> validation_result \<Rightarrow> (exn \<times> validation_result) + validation_result" where
  "validate_frontmatter metadata result =
     (if metadata = []
      then Inr (add_warning ''No frontmatter found. Consider adding 'description' field.'' result)
      else (let r1 = check_unknown_fields metadata result;
                r2 = check_description metadata r1;
                r3 = (case map_of metadata ''allowed-tools'' of
                        None \<Rightarrow> r2
                      | Some v \<Rightarrow> validate_allowed_tools v r2)
            in case check_model metadata r3 of
                 Inl e \<Rightarrow> Inl (e, r3)
               | Inr r4 \<Rightarrow>
                   Inr (check_disable_model_invocation metadata (check_argument_hint metadata r4))))"

text \<open>\<^verbatim>\<open>re.findall(r'@([\w\-./]+)', body)\<close>.\<close>

definition is_path_char :: "char \<Rightarrow> bool" where
  "is_path_char c = (is_word c \<or> c \<in> set ''-./'')"

function file_refs :: "string \<Rightarrow> string list" where
  "file_refs [] = []"
| "file_refs (c # cs) =
     (if c = CHR ''@'' \<and> takeWhile is_path_char cs \<noteq> []
      then takeWhile is_path_char cs # file_refs (dropWhile is_path_char cs)
      else file_refs cs)"
  by pat_completeness auto
termination
  by (relation "measure length") (auto simp: length_dropWhile_le less_Suc_eq_le)

declare file_refs.simps [simp del]

text \<open>\<^verbatim>\<open>SlashCommandValidator._get_frontmatter_from_file\<close>: the file is read again; its
  content stands for its path.\<close>

definition get_frontmatter_from_file :: "loader \<Rightarrow> string \<Rightarrow> metadata option" where
  "get_frontmatter_from_file loads content =
     (case loads content of Inl _ \<Rightarrow> None | Inr (metadata, _) \<Rightarrow> Some metadata)"

text \<open>The permission check inside \<^verbatim>\<open>_validate_content\<close> (lines 230 to 236).\<close>

definition check_bash_allowed :: "metadata option \<Rightarrow> validation_result \<Rightarrow> validation_result" where
  "check_bash_allowed metadata_check result =
     (case metadata_check of
        None \<Rightarrow> result
      | Some m \<Rightarrow>
          (if m \<noteq> [] then
             (case map_of m ''allowed-tools'' of
                None \<Rightarrow> result
              | Some v \<Rightarrow>
                  if \<not> str_in ''Bash'' (py_str v)
                  then add_error ''Bash commands found but 'Bash' not in allowed-tools'' result
                  else result)
           else result))"

text \<open>The message of that error.\<close>

definition bash_error :: string where
  "bash_error = ''Bash commands found but 'Bash' not in allowed-tools''"

text \<open>\<^verbatim>\<open>SlashCommandValidator._validate_content\<close>.\<close>

definition validate_content :: "string \<Rightarrow> metadata option \<Rightarrow> validation_result \<Rightarrow> validation_result" where
  "validate_content body metadata_check result =
     (if strip body = [] then add_error ''File has no content after frontmatter'' result
      else (let r1 = (if bash_commands body \<noteq> []
                      then check_bash_allowed metadata_check
                             (add_info (''Found '' @ str_int (int (length (bash_commands body)))
                                          @ '' bash command execution(s)'') result)
                      else result);
                r2 = (if file_refs body \<noteq> []
                      then add_info (''Found '' @ str_int (int (length (file_refs body)))
                                       @ '' file reference(s)'') r1
                      else r1)
            in if \<exists>keyword \<in> set [''<ultrathink>'', ''<megaexpertise>'', ''<think>'', ''<thinking>''].
                    str_in keyword body
               then add_info ''Extended thinking mode detected'' r2
               else r2))"

text \<open>\<^verbatim>\<open>SlashCommandValidator._validate_arguments\<close>.\<close>

definition validate_arguments :: "metadata \<Rightarrow> string \<Rightarrow> validation_result \<Rightarrow> validation_result" where
  "validate_arguments metadata body result =
     (let has_arguments = str_in ''$ARGUMENTS'' body;
          has_positional = (length (positional_args body) > 0);
          r1 = (if has_arguments \<and> has_positional
                then add_warning ''Mixed usage of $ARGUMENTS and positional args ($1, $2). Use one style.'' result
                else result);
          r2 = (if (has_arguments \<or> has_positional) \<and> map_of metadata ''argument-hint'' = None
                then add_warning ''Arguments detected but no 'argument-hint' in frontmatter'' r1
                else r1)
      in if map_of metadata ''argument-hint'' \<noteq> None \<and> \<not> has_arguments \<and> \<not> has_positional
         then add_warning '''argument-hint' specified but no $ARGUMENTS or $N found in content'' r2
         else r2)"

text \<open>\<^verbatim>\<open>SlashCommandValidator.validate_file\<close> on the path and the content of the file.\<close>

definition validate_file :: "loader \<Rightarrow> string \<Rightarrow> string \<Rightarrow> validation_result" where
  "validate_file loads path content =
     (let result = \<lparr>file_path = path, is_valid = True, errors = [], warnings = [], info = []\<rparr>
      in case loads content of
           Inl e \<Rightarrow> add_error (''Failed to parse frontmatter: '' @ e) result
         | Inr (metadata, body) \<Rightarrow>
             (case validate_frontmatter metadata result of
                Inl (e, r) \<Rightarrow> add_error (''Unexpected error: '' @ exn_str e) r
              | Inr r \<Rightarrow>
                  validate_arguments metadata body
                    (validate_content body (get_frontmatter_from_file loads content) r)))"

subsection \<open>The description check of \<^verbatim>\<open>scripts/validate_slash_commands.py\<close>\<close>

datatype validation_status = PASS | FAIL | WARNING | INFO

text \<open>\<^verbatim>\<open>type(v).__name__\<close>.\<close>

definition type_name :: "pyval \<Rightarrow> string" where
  "type_name v = (case v of VStr s \<Rightarrow> ''str'' | VBool b \<Rightarrow> ''bool'' | VList xs \<Rightarrow> ''list'')"

text \<open>\<^verbatim>\<open>SlashCommandValidator.validate_description\<close> of the script: the results it adds, each
  a status and a message.\<close>

definition validate_description :: "metadata \<Rightarrow> (validation_status \<times> string) list" where
  "validate_description frontmatter =
     (case map_of frontmatter ''description'' of
        None \<Rightarrow>
          [(WARNING, ''No 'description' in frontmatter - required for SlashCommand tool discovery'')]
      | Some (VStr description) \<Rightarrow>
          (if length description < 10
           then [(WARNING, ''Description is very short - consider adding more detail'')] else [])
          @ (if length description > 200
             then [(WARNING, ''Description is very long - consider making it more concise'')] else [])
      | Some v \<Rightarrow> [(FAIL, '''description' must be a string, got '' @ type_name v)])"

subsection \<open>The frontmatter parser of the specification\<close>

text \<open>Modelled from the spec: the frontmatter parser of section 4.1, whose code is the
  library behind \<^verbatim>\<open>frontmatter.loads\<close> and is not among the sources. A marker line is a
  line \<^verbatim>\<open>---\<close> (section 6). Without an opening marker line there is no metadata and the
  body is the text. With an opening marker line and no closing one, or with a block that
  does not decode, parsing fails. Otherwise the body starts behind the line break of the
  closing marker line. The decoder of the block (the mapping grammar, which the
  specification leaves to a collaborator) is the parameter \<open>decode\<close>.\<close>

definition marker_line :: string where
  "marker_line = ''---''"

definition opens_with_marker :: "string \<Rightarrow> bool" where
  "opens_with_marker content =
     (case split_on newline content of [] \<Rightarrow> False | l # ls \<Rightarrow> l = marker_line)"

definition has_closing_marker :: "string \<Rightarrow> bool" where
  "has_closing_marker content =
     (case split_on newline content of [] \<Rightarrow> False | l # ls \<Rightarrow> marker_line \<in> set ls)"

definition spec_loads :: "(string \<Rightarrow> string + metadata) \<Rightarrow> loader" where
  "spec_loads decode content =
     (case split_on newline content of
        [] \<Rightarrow> Inr ([], content)
      | l # ls \<Rightarrow>
          if l \<noteq> marker_line then Inr ([], content)
          else if marker_line \<notin> set ls then Inl ''no closing marker''
          else (case decode (join [newline] (takeWhile (\<lambda>x. x \<noteq> marker_line) ls)) of
                  Inl e \<Rightarrow> Inl e
                | Inr metadata \<Rightarrow>
                    Inr (metadata,
                         join [newline] (tl (dropWhile (\<lambda>x. x \<noteq> marker_line) ls)))))"

subsection \<open>The auto-fixer on shared list objects\<close>

text \<open>A Python list is an object: a dictionary holds a reference to it, \<^verbatim>\<open>dict.copy()\<close>
  copies the references, and \<^verbatim>\<open>list.append\<close> changes the object for every holder. Here a
  value is a string, a boolean or the address of a list in a store; \<open>view\<close> is what a
  dictionary reads as in a store. A copy of a dictionary is the same association list.\<close>

datatype ref_val = RStr string | RBool bool | RList nat

type_synonym ref_metadata = "(string \<times> ref_val) list"

type_synonym store = "nat \<Rightarrow> string list"

definition deref :: "store \<Rightarrow> ref_val \<Rightarrow> pyval" where
  "deref st v = (case v of RStr s \<Rightarrow> VStr s | RBool b \<Rightarrow> VBool b | RList a \<Rightarrow> VList (st a))"

definition view :: "store \<Rightarrow> ref_metadata \<Rightarrow> metadata" where
  "view st m = map (\<lambda>kv. (fst kv, deref st (snd kv))) m"

text \<open>\<^verbatim>\<open>_fix_metadata\<close>, in the same three steps as on values: it reads lists and
  changes none.\<close>

definition fix_description_refs :: "store \<Rightarrow> ref_metadata \<times> string list \<Rightarrow> ref_metadata \<times> string list" where
  "fix_description_refs st s =
     (case s of (new_metadata, fixes) \<Rightarrow>
        (case map_of new_metadata ''description'' of
           Some (RList a) \<Rightarrow>
             (AList.update ''description'' (RStr (join '' '' (st a))) new_metadata,
              fixes @ [''Converted description from list to string''])
         | _ \<Rightarrow> (new_metadata, fixes)))"

definition fix_argument_hint_list_refs :: "store \<Rightarrow> ref_metadata \<times> string list \<Rightarrow> ref_metadata \<times> string list" where
  "fix_argument_hint_list_refs st s =
     (case s of (new_metadata, fixes) \<Rightarrow>
        (case map_of new_metadata ''argument-hint'' of
           Some (RList a) \<Rightarrow>
             (AList.update ''argument-hint'' (RStr (join '' '' (st a))) new_metadata,
              fixes @ [''Converted argument-hint from list to string''])
         | _ \<Rightarrow> (new_metadata, fixes)))"

definition add_argument_hint_refs :: "string \<Rightarrow> ref_metadata \<times> string list \<Rightarrow> ref_metadata \<times> string list" where
  "add_argument_hint_refs body s =
     (case s of (new_metadata, fixes) \<Rightarrow>
        (let has_arguments = str_in ''$ARGUMENTS'' body;
             positional = positional_args body;
             has_positional = (length positional > 0)
         in if (has_arguments \<or> has_positional) \<and> map_of new_metadata ''argument-hint'' = None
            then if has_arguments
                 then (AList.update ''argument-hint'' (RStr ''[args]'') new_metadata,
                       fixes @ [''Added generic argument-hint for $ARGUMENTS usage''])
                 else (case positional of
                         [] \<Rightarrow> (new_metadata, fixes)
                       | n # ns \<Rightarrow>
                           (let max_arg = max_of (int_of_digits n) (map int_of_digits ns)
                            in (AList.update ''argument-hint'' (RStr (hint_parts max_arg)) new_metadata,
                                fixes @ [''Added argument-hint for positional arguments ($1-$''
                                          @ str_int max_arg @ '')''])))
            else (new_metadata, fixes)))"

definition fix_metadata_refs :: "store \<Rightarrow> ref_metadata \<Rightarrow> string \<Rightarrow> ref_metadata \<times> string list" where
  "fix_metadata_refs st metadata body =
     add_argument_hint_refs body
       (fix_argument_hint_list_refs st (fix_description_refs st (metadata, [])))"

text \<open>\<^verbatim>\<open>_check_bash_permissions\<close>.\<close>

definition check_bash_permissions_refs :: "store \<Rightarrow> ref_metadata \<Rightarrow> string \<Rightarrow> exn + string list" where
  "check_bash_permissions_refs st metadata body =
     (if bash_commands body = [] then Inr []
      else (case map_of metadata ''allowed-tools'' of
              None \<Rightarrow> Inr [''Bash commands found but no allowed-tools defined'']
            | Some (RList a) \<Rightarrow>
                Inr (if \<not> str_in ''Bash'' (join '', '' (st a))
                     then [''Bash commands found but Bash not in allowed-tools''] else [])
            | Some (RStr s) \<Rightarrow>
                Inr (if \<not> str_in ''Bash'' s
                     then [''Bash commands found but Bash not in allowed-tools''] else [])
            | Some (RBool b) \<Rightarrow>
                Inl (TypeError ''argument of type 'bool' is not iterable'')))"

text \<open>\<^verbatim>\<open>_add_bash_to_allowed_tools\<close>: \<^verbatim>\<open>tools.append('Bash')\<close> changes the list at its
  address; the assignment that follows stores the same reference again.\<close>

definition add_bash_to_allowed_tools_refs :: "store \<Rightarrow> ref_metadata \<Rightarrow> store \<times> ref_metadata" where
  "add_bash_to_allowed_tools_refs st metadata =
     (case map_of metadata ''allowed-tools'' of
        None \<Rightarrow> (st, AList.update ''allowed-tools'' (RStr ''Bash'') metadata)
      | Some (RList a) \<Rightarrow>
          (st(a := st a @ [''Bash'']), AList.update ''allowed-tools'' (RList a) metadata)
      | Some (RStr s) \<Rightarrow> (st, AList.update ''allowed-tools'' (RStr (s @ '', Bash'')) metadata)
      | Some (RBool b) \<Rightarrow>
          (st, AList.update ''allowed-tools'' (RStr (str_bool b @ '', Bash'')) metadata))"

text \<open>Lines 87 to 95 of \<^verbatim>\<open>fix_file\<close> with the store: the fixes, the store afterwards and
  the new metadata.\<close>

definition apply_fixes_refs :: "store \<Rightarrow> ref_metadata \<Rightarrow> string \<Rightarrow> (string list \<times> exn) + (string list \<times> store \<times> ref_metadata)" where
  "apply_fixes_refs st metadata body =
     (case fix_metadata_refs st metadata body of (new_metadata, metadata_fixes) \<Rightarrow>
        (case check_bash_permissions_refs st metadata body of
           Inl e \<Rightarrow> Inl (metadata_fixes, e)
         | Inr bash_fixes \<Rightarrow>
             (if bash_fixes \<noteq> []
              then (case add_bash_to_allowed_tools_refs st new_metadata of
                      (st', new_metadata') \<Rightarrow> Inr (metadata_fixes @ bash_fixes, st', new_metadata'))
              else Inr (metadata_fixes, st, new_metadata))))"

subsection \<open>Example documents\<close>

text \<open>What the library answers on the documents of the examples below: a table for
  \<^verbatim>\<open>frontmatter.loads\<close> (a text without frontmatter is its own body; a block that is not in
  the table does not decode) and, for \<^verbatim>\<open>frontmatter.dumps\<close>, one line per field between
  the marker lines, an empty line and the body.\<close>

definition example_loads :: loader where
  "example_loads content =
     (if content = ''---\<newline>allowed-tools: true\<newline>---\<newline>\<newline>List files: !`ls`''
      then Inr ([(''allowed-tools'', VBool True)], ''List files: !`ls`'')
      else if content = ''---\<newline>allowed-tools: Edit\<newline>---\<newline>\<newline>List files: !`ls`''
      then Inr ([(''allowed-tools'', VStr ''Edit'')], ''List files: !`ls`'')
      else if content = ''---\<newline>allowed-tools: Edit, Bash\<newline>---\<newline>\<newline>List files: !`ls`''
      then Inr ([(''allowed-tools'', VStr ''Edit, Bash'')], ''List files: !`ls`'')
      else if content = ''---\<newline>description: List the files\<newline>---\<newline>\<newline>List files: !`ls`''
      then Inr ([(''description'', VStr ''List the files'')], ''List files: !`ls`'')
      else if \<not> prefix ''---'' content then Inr ([], content)
      else Inl ''mapping values are not allowed here'')"

definition example_scalar :: "pyval \<Rightarrow> string" where
  "example_scalar v =
     (case v of
        VStr s \<Rightarrow> s
      | VBool b \<Rightarrow> (if b then ''true'' else ''false'')
      | VList xs \<Rightarrow> ''['' @ join '', '' xs @ '']'')"

definition example_dumps :: dumper where
  "example_dumps metadata body =
     ''---\<newline>''
       @ concat (map (\<lambda>kv. fst kv @ '': '' @ example_scalar (snd kv) @ [newline]) metadata)
       @ ''---\<newline>\<newline>'' @ body"

definition example_store :: store where
  "example_store a = (if a = 0 then [''Edit''] else [])"

section \<open>Properties\<close>

subsection \<open>Lookup after the fixes\<close>

lemma map_of_update:
  "map_of (AList.update k v al) k' = (if k' = k then Some v else map_of al k')"
  by (simp add: update_conv')

lemma fix_description_other:
  "k \<noteq> ''description'' \<Longrightarrow> map_of (fst (fix_description (md, fx))) k = map_of md k"
  by (simp add: fix_description_def map_of_update split: option.splits pyval.splits)

lemma fix_argument_hint_list_absent:
  "map_of md ''argument-hint'' = None \<Longrightarrow> fix_argument_hint_list (md, fx) = (md, fx)"
  by (simp add: fix_argument_hint_list_def)

lemma max_of_Max: "max_of x xs = Max (set (x # xs))"
  unfolding max_of_def by (rule Max.set_eq_fold [symmetric])

lemma fix_metadata_positional:
  assumes "map_of metadata ''argument-hint'' = None"
      and "\<not> str_in ''$ARGUMENTS'' body"
      and "positional_args body = n # ns"
  shows "fix_metadata metadata body =
           (AList.update ''argument-hint''
              (VStr (hint_parts (Max (set (map int_of_digits (n # ns))))))
              (fst (fix_description (metadata, []))),
            snd (fix_description (metadata, []))
              @ [''Added argument-hint for positional arguments ($1-$''
                   @ str_int (Max (set (map int_of_digits (n # ns)))) @ '')''])"
proof -
  obtain md1 fx1 where d: "fix_description (metadata, []) = (md1, fx1)"
    by (cases "fix_description (metadata, [])")
  have "map_of md1 ''argument-hint'' = None"
    using fix_description_other [of "''argument-hint''" metadata "[]"] d assms(1) by simp
  then show ?thesis
    using assms(2,3) d
    by (simp add: fix_metadata_def fix_argument_hint_list_absent add_argument_hint_def
        max_of_Max)
qed

lemma add_bash_other:
  "k \<noteq> ''allowed-tools'' \<Longrightarrow> map_of (add_bash_to_allowed_tools md) k = map_of md k"
  by (simp add: add_bash_to_allowed_tools_def map_of_update split: option.splits pyval.splits)

lemma apply_fixes_other:
  assumes "apply_fixes metadata body = Inr (fxs, new_metadata)" and "k \<noteq> ''allowed-tools''"
  shows "map_of new_metadata k = map_of (fst (fix_metadata metadata body)) k"
  using assms
  by (auto simp: apply_fixes_def add_bash_other split: prod.splits sum.splits if_splits)

lemma apply_fixes_records:
  assumes "apply_fixes metadata body = Inr (fxs, new_metadata)"
  shows "set (snd (fix_metadata metadata body)) \<subseteq> set fxs"
  using assms
  by (auto simp: apply_fixes_def split: prod.splits sum.splits if_splits)

lemma hint_parts_3: "hint_parts 3 = ''[arg1] [arg2] [arg3]''"
  by (simp add: hint_parts_def str_int_def str_nat.simps digit_char_def upto.simps)

lemma hint_parts_0: "hint_parts 0 = []"
  by (simp add: hint_parts_def)

subsection \<open>Synthesis of the argument hint\<close>

text \<open>
  Claim C5. A document has no \<^verbatim>\<open>argument-hint\<close> field, its body has no \<^verbatim>\<open>$ARGUMENTS\<close> and
  has positional markers. Then \<^verbatim>\<open>_fix_metadata\<close> sets \<^verbatim>\<open>argument-hint\<close> to
  \<^verbatim>\<open>[arg1] ... [argN]\<close>, joined by single spaces, where \<open>N\<close> is the greatest index among
  the markers; the metadata the fixer goes on to write holds the same hint; and when the
  indices found are exactly 1 and 3 the hint is \<^verbatim>\<open>[arg1] [arg2] [arg3]\<close>. (The embedding
  takes integers and lists of any size; the limits of a Python process on the number of
  digits and on memory are outside it.)
\<close>

theorem positional_hint_enumerates:
  assumes "map_of metadata ''argument-hint'' = None"
      and "\<not> str_in ''$ARGUMENTS'' body"
      and "positional_args body \<noteq> []"
  shows "let N = Max (set (map int_of_digits (positional_args body)));
             hint = join '' '' (map (\<lambda>i. ''[arg'' @ str_int i @ '']'') [1..N])
         in map_of (fst (fix_metadata metadata body)) ''argument-hint'' = Some (VStr hint)
            \<and> (\<forall>fixes new_metadata. apply_fixes metadata body = Inr (fixes, new_metadata)
                   \<longrightarrow> map_of new_metadata ''argument-hint'' = Some (VStr hint))
            \<and> (set (map int_of_digits (positional_args body)) = {1, 3}
                   \<longrightarrow> hint = ''[arg1] [arg2] [arg3]'')"
proof -
  obtain n ns where p: "positional_args body = n # ns"
    using assms(3) by (cases "positional_args body") auto
  have a: "map_of (fst (fix_metadata metadata body)) ''argument-hint''
             = Some (VStr (hint_parts (Max (set (map int_of_digits (n # ns))))))"
    by (simp add: fix_metadata_positional [OF assms(1,2) p] map_of_update)
  have b: "map_of new_metadata ''argument-hint''
             = map_of (fst (fix_metadata metadata body)) ''argument-hint''"
    if "apply_fixes metadata body = Inr (fxs, new_metadata)" for fxs new_metadata
    using apply_fixes_other [OF that] by simp
  have c: "hint_parts (Max (set (map int_of_digits (n # ns)))) = ''[arg1] [arg2] [arg3]''"
    if "set (map int_of_digits (n # ns)) = {1, 3}"
    using that hint_parts_3 by simp
  show ?thesis
    unfolding Let_def p using a b c by (simp add: hint_parts_def)
qed

theorem positional_hint_enumerates_witness:
  "map_of [] ''argument-hint'' = (None :: pyval option)
   \<and> \<not> str_in ''$ARGUMENTS'' ''compare $1 with $3''
   \<and> positional_args ''compare $1 with $3'' = [''1'', ''3'']
   \<and> map_of (fst (fix_metadata [] ''compare $1 with $3'')) ''argument-hint''
       = Some (VStr ''[arg1] [arg2] [arg3]'')"
proof -
  have h1: "map_of ([] :: metadata) ''argument-hint'' = None" by simp
  have h2: "\<not> str_in ''$ARGUMENTS'' ''compare $1 with $3''" by simp
  have h3: "positional_args ''compare $1 with $3'' = [''1'', ''3'']"
    by (simp add: positional_args.simps is_digit_def)
  have h3': "positional_args ''compare $1 with $3'' \<noteq> []" by (simp add: h3)
  have m: "Max (set (map int_of_digits (positional_args ''compare $1 with $3''))) = 3"
    unfolding h3 by (simp add: int_of_digits_def digit_val_def)
  have h: "join '' '' (map (\<lambda>i. ''[arg'' @ str_int i @ '']'') [1..3]) = ''[arg1] [arg2] [arg3]''"
    using hint_parts_3 by (simp only: hint_parts_def)
  have "map_of (fst (fix_metadata [] ''compare $1 with $3'')) ''argument-hint''
       = Some (VStr ''[arg1] [arg2] [arg3]'')"
    using positional_hint_enumerates [OF h1 h2 h3'] unfolding Let_def m h by (rule conjunct1)
  with h1 h2 h3 show ?thesis by (intro conjI)
qed

text \<open>
  Claim C10. A document has no \<^verbatim>\<open>argument-hint\<close> field, its body has no \<^verbatim>\<open>$ARGUMENTS\<close>, and
  every positional marker of the body has the index 0. Then \<^verbatim>\<open>_fix_metadata\<close> sets
  \<^verbatim>\<open>argument-hint\<close> to the empty string and its last fix is the one for positional
  arguments, with the range \<^verbatim>\<open>$1-$0\<close>; the metadata and the fixes the fixer goes on with
  hold both.
\<close>

theorem zero_marker_gives_empty_hint:
  assumes "map_of metadata ''argument-hint'' = None"
      and "\<not> str_in ''$ARGUMENTS'' body"
      and "positional_args body \<noteq> []"
      and "\<forall>d \<in> set (positional_args body). int_of_digits d = 0"
  shows "map_of (fst (fix_metadata metadata body)) ''argument-hint'' = Some (VStr [])
         \<and> last (snd (fix_metadata metadata body))
             = ''Added argument-hint for positional arguments ($1-$0)''
         \<and> (\<forall>fixes new_metadata. apply_fixes metadata body = Inr (fixes, new_metadata)
                \<longrightarrow> map_of new_metadata ''argument-hint'' = Some (VStr [])
                    \<and> ''Added argument-hint for positional arguments ($1-$0)'' \<in> set fixes)"
proof -
  obtain n ns where p: "positional_args body = n # ns"
    using assms(3) by (cases "positional_args body") auto
  have s: "set (map int_of_digits (n # ns)) = {0}"
    using assms(4) unfolding p by auto
  have m: "Max (set (map int_of_digits (n # ns))) = 0"
    unfolding s by simp
  have s0: "str_int 0 = ''0''"
    by (simp add: str_int_def str_nat.simps digit_char_def)
  note f = fix_metadata_positional [OF assms(1,2) p, unfolded m hint_parts_0 s0]
  have a: "map_of (fst (fix_metadata metadata body)) ''argument-hint'' = Some (VStr [])"
    by (simp add: f map_of_update)
  have b: "last (snd (fix_metadata metadata body))
             = ''Added argument-hint for positional arguments ($1-$0)''"
    by (simp add: f)
  have c: "''Added argument-hint for positional arguments ($1-$0)''
             \<in> set (snd (fix_metadata metadata body))"
    by (simp add: f)
  have d: "map_of new_metadata ''argument-hint'' = Some (VStr [])
             \<and> ''Added argument-hint for positional arguments ($1-$0)'' \<in> set fxs"
    if "apply_fixes metadata body = Inr (fxs, new_metadata)" for fxs new_metadata
    using apply_fixes_other [OF that, of "''argument-hint''"] apply_fixes_records [OF that] a c
    by auto
  from a b d show ?thesis by blast
qed

theorem zero_marker_gives_empty_hint_witness:
  "map_of [] ''argument-hint'' = (None :: pyval option)
   \<and> \<not> str_in ''$ARGUMENTS'' ''echo $0''
   \<and> positional_args ''echo $0'' = [''0'']
   \<and> int_of_digits ''0'' = 0
   \<and> map_of (fst (fix_metadata [] ''echo $0'')) ''argument-hint'' = Some (VStr [])
   \<and> last (snd (fix_metadata [] ''echo $0''))
       = ''Added argument-hint for positional arguments ($1-$0)''"
proof -
  have h1: "map_of ([] :: metadata) ''argument-hint'' = None" by simp
  have h2: "\<not> str_in ''$ARGUMENTS'' ''echo $0''" by simp
  have h3: "positional_args ''echo $0'' = [''0'']"
    by (simp add: positional_args.simps is_digit_def)
  have h3': "positional_args ''echo $0'' \<noteq> []" by (simp add: h3)
  have z: "int_of_digits ''0'' = 0" by (simp add: int_of_digits_def digit_val_def)
  have h4: "\<forall>d \<in> set (positional_args ''echo $0''). int_of_digits d = 0"
    unfolding h3 using z by simp
  note t = zero_marker_gives_empty_hint [OF h1 h2 h3' h4]
  from t have c1: "map_of (fst (fix_metadata [] ''echo $0'')) ''argument-hint'' = Some (VStr [])"
    by (rule conjunct1)
  from t have c2: "last (snd (fix_metadata [] ''echo $0''))
       = ''Added argument-hint for positional arguments ($1-$0)''"
    by (rule conjunct2 [THEN conjunct1])
  from h1 h2 h3 z c1 c2 show ?thesis by (intro conjI)
qed

subsection \<open>Substrings\<close>

lemma str_in_sublist: "str_in p s \<longleftrightarrow> sublist p s"
  by (induction s) (auto simp: sublist_Cons_right)

lemma sublist_across_char:
  assumes "c \<notin> set p"
  shows "sublist p (a @ c # b) \<longleftrightarrow> sublist p a \<or> sublist p b"
proof
  assume "sublist p (a @ c # b)"
  then consider "sublist p a" | "sublist p (c # b)"
    | p1 p2 where "p = p1 @ p2" "suffix p1 a" "prefix p2 (c # b)"
    unfolding sublist_append by blast
  then show "sublist p a \<or> sublist p b"
  proof cases
    case 1
    then show ?thesis by simp
  next
    case 2
    then have "prefix p (c # b) \<or> sublist p b" by (simp add: sublist_Cons_right)
    moreover have "sublist p b" if "prefix p (c # b)"
      using that assms by (cases p) auto
    ultimately show ?thesis by blast
  next
    case 3
    have "p2 = []" using 3(1,3) assms by (cases p2) auto
    then have "suffix p a" using 3(1,2) by simp
    then show ?thesis by (auto simp: suffix_def)
  qed
next
  assume "sublist p a \<or> sublist p b"
  then show "sublist p (a @ c # b)"
    by (auto simp: sublist_append sublist_Cons_right)
qed

lemma sublist_behind_char:
  "c \<notin> set p \<Longrightarrow> p \<noteq> [] \<Longrightarrow> sublist p (c # b) \<longleftrightarrow> sublist p b"
  using sublist_across_char [of c p "[]" b] by simp

lemma sublist_behind_chars:
  "set sep \<inter> set p = {} \<Longrightarrow> p \<noteq> [] \<Longrightarrow> sublist p (sep @ b) \<longleftrightarrow> sublist p b"
  by (induction sep) (auto simp: sublist_behind_char)

lemma sublist_across_chars:
  assumes "set sep \<inter> set p = {}" and "sep \<noteq> []" and "p \<noteq> []"
  shows "sublist p (a @ sep @ b) \<longleftrightarrow> sublist p a \<or> sublist p b"
proof -
  obtain c sep' where s: "sep = c # sep'"
    using assms(2) by (cases sep) auto
  have "c \<notin> set p" and "set sep' \<inter> set p = {}"
    using assms(1) s by auto
  then show ?thesis
    unfolding s using assms(3)
    by (simp add: sublist_across_char sublist_behind_chars)
qed

lemma sublist_join:
  assumes "set sep \<inter> set p = {}" and "sep \<noteq> []" and "p \<noteq> []"
  shows "sublist p (join sep xs) \<longleftrightarrow> (\<exists>x \<in> set xs. sublist p x)"
  using assms
proof (induction sep xs rule: join.induct)
  case (1 sep)
  then show ?case by simp
next
  case (2 sep x)
  then show ?case by simp
next
  case (3 sep x y ys)
  have "sublist p (x @ sep @ join sep (y # ys))
          \<longleftrightarrow> sublist p x \<or> sublist p (join sep (y # ys))"
    using 3(2-4) by (rule sublist_across_chars)
  then show ?case using 3 by simp
qed

lemma Bash_in_join:
  "str_in ''Bash'' (join '', '' ts) \<longleftrightarrow> (\<exists>t \<in> set ts. str_in ''Bash'' t)"
  unfolding str_in_sublist by (rule sublist_join) simp_all

subsection \<open>Synthesis of the permission\<close>

lemma fix_metadata_other:
  assumes "k \<noteq> ''description''" and "k \<noteq> ''argument-hint''"
  shows "map_of (fst (fix_metadata metadata body)) k = map_of metadata k"
proof -
  obtain m1 f1 where a: "fix_description (metadata, []) = (m1, f1)"
    by (cases "fix_description (metadata, [])")
  obtain m2 f2 where b: "fix_argument_hint_list (m1, f1) = (m2, f2)"
    by (cases "fix_argument_hint_list (m1, f1)")
  have 1: "map_of m1 k = map_of metadata k"
    using fix_description_other [OF assms(1), of metadata "[]"] a by simp
  have 2: "map_of m2 k = map_of m1 k"
    using b assms(2)
    by (auto simp: fix_argument_hint_list_def map_of_update split: option.splits pyval.splits)
  have 3: "map_of (fst (add_argument_hint body (m2, f2))) k = map_of m2 k"
    using assms(2)
    by (auto simp: add_argument_hint_def Let_def map_of_update split: list.splits)
  show ?thesis
    by (simp add: fix_metadata_def a b 1 2 3)
qed

lemma apply_fixes_allowed_tools:
  assumes "check_bash_permissions metadata body = Inr bash_fixes"
  shows "\<exists>fxs new_metadata. apply_fixes metadata body = Inr (fxs, new_metadata)
           \<and> map_of new_metadata ''allowed-tools''
               = (if bash_fixes \<noteq> []
                  then map_of (add_bash_to_allowed_tools (fst (fix_metadata metadata body)))
                         ''allowed-tools''
                  else map_of metadata ''allowed-tools'')"
  using assms fix_metadata_other [of "''allowed-tools''" metadata body]
  by (cases "fix_metadata metadata body") (simp add: apply_fixes_def)

lemma add_bash_allowed_tools:
  "map_of (add_bash_to_allowed_tools md) ''allowed-tools''
     = Some (case map_of md ''allowed-tools'' of
               None \<Rightarrow> VStr ''Bash''
             | Some (VList ts) \<Rightarrow> VList (ts @ [''Bash''])
             | Some (VStr s) \<Rightarrow> VStr (s @ '', Bash'')
             | Some (VBool b) \<Rightarrow> VStr (str_bool b @ '', Bash''))"
  by (simp add: add_bash_to_allowed_tools_def map_of_update split: option.splits pyval.splits)

text \<open>
  Claim C4. The body of a document contains a shell-execution marker. If \<^verbatim>\<open>allowed-tools\<close>
  is the string \<^verbatim>\<open>Edit\<close>, the metadata the fixer produces has \<^verbatim>\<open>allowed-tools\<close>
  \<^verbatim>\<open>Edit, Bash\<close>. If it is a sequence, the fixer appends \<^verbatim>\<open>Bash\<close> exactly when no entry of
  the sequence contains \<^verbatim>\<open>Bash\<close> as a substring, and otherwise leaves the sequence as it
  is; so a sequence that has the entry \<^verbatim>\<open>Bash\<close> gets no second one, and neither does one
  whose entries only contain it. If the field is absent, the fixer creates it as the string
  \<^verbatim>\<open>Bash\<close>.
\<close>

theorem permission_synthesis:
  assumes "bash_commands body \<noteq> []"
  shows "(map_of metadata ''allowed-tools'' = Some (VStr ''Edit'') \<longrightarrow>
            (\<exists>fixes new_metadata. apply_fixes metadata body = Inr (fixes, new_metadata)
               \<and> map_of new_metadata ''allowed-tools'' = Some (VStr ''Edit, Bash'')))
         \<and> (\<forall>ts. map_of metadata ''allowed-tools'' = Some (VList ts) \<longrightarrow>
               (\<exists>fixes new_metadata. apply_fixes metadata body = Inr (fixes, new_metadata)
                  \<and> map_of new_metadata ''allowed-tools''
                      = Some (VList (if \<exists>t \<in> set ts. str_in ''Bash'' t then ts
                                     else ts @ [''Bash'']))
                  \<and> (''Bash'' \<in> set ts
                        \<longrightarrow> map_of new_metadata ''allowed-tools'' = Some (VList ts))))
         \<and> (map_of metadata ''allowed-tools'' = None \<longrightarrow>
               (\<exists>fixes new_metadata. apply_fixes metadata body = Inr (fixes, new_metadata)
                  \<and> map_of new_metadata ''allowed-tools'' = Some (VStr ''Bash'')))"
proof (intro conjI allI impI)
  assume a: "map_of metadata ''allowed-tools'' = Some (VStr ''Edit'')"
  have c: "check_bash_permissions metadata body
             = Inr [''Bash commands found but Bash not in allowed-tools'']"
    using assms a by (simp add: check_bash_permissions_def)
  have "map_of (fst (fix_metadata metadata body)) ''allowed-tools'' = Some (VStr ''Edit'')"
    using a fix_metadata_other [of "''allowed-tools''" metadata body] by simp
  then show "\<exists>fixes new_metadata. apply_fixes metadata body = Inr (fixes, new_metadata)
               \<and> map_of new_metadata ''allowed-tools'' = Some (VStr ''Edit, Bash'')"
    using apply_fixes_allowed_tools [OF c] by (simp add: add_bash_allowed_tools)
next
  fix ts
  assume a: "map_of metadata ''allowed-tools'' = Some (VList ts)"
  let ?declared = "\<exists>t \<in> set ts. str_in ''Bash'' t"
  have c: "check_bash_permissions metadata body
             = Inr (if \<not> ?declared
                    then [''Bash commands found but Bash not in allowed-tools''] else [])"
    using assms a by (simp add: check_bash_permissions_def Bash_in_join)
  have f: "map_of (fst (fix_metadata metadata body)) ''allowed-tools'' = Some (VList ts)"
    using a fix_metadata_other [of "''allowed-tools''" metadata body] by simp
  have s: "str_in ''Bash'' ''Bash''" by simp
  obtain fxs new_metadata where
    r: "apply_fixes metadata body = Inr (fxs, new_metadata)"
    and m: "map_of new_metadata ''allowed-tools''
              = Some (VList (if ?declared then ts else ts @ [''Bash'']))"
    using apply_fixes_allowed_tools [OF c] a f
    by (cases ?declared) (auto simp: add_bash_allowed_tools)
  have "map_of new_metadata ''allowed-tools'' = Some (VList ts)" if "''Bash'' \<in> set ts"
  proof -
    have ?declared using that s by blast
    then show ?thesis using m by simp
  qed
  with r m show "\<exists>fixes new_metadata. apply_fixes metadata body = Inr (fixes, new_metadata)
        \<and> map_of new_metadata ''allowed-tools''
            = Some (VList (if ?declared then ts else ts @ [''Bash'']))
        \<and> (''Bash'' \<in> set ts \<longrightarrow> map_of new_metadata ''allowed-tools'' = Some (VList ts))"
    by blast
next
  assume a: "map_of metadata ''allowed-tools'' = None"
  have c: "check_bash_permissions metadata body
             = Inr [''Bash commands found but no allowed-tools defined'']"
    using assms a by (simp add: check_bash_permissions_def)
  have "map_of (fst (fix_metadata metadata body)) ''allowed-tools'' = None"
    using a fix_metadata_other [of "''allowed-tools''" metadata body] by simp
  then show "\<exists>fixes new_metadata. apply_fixes metadata body = Inr (fixes, new_metadata)
               \<and> map_of new_metadata ''allowed-tools'' = Some (VStr ''Bash'')"
    using apply_fixes_allowed_tools [OF c] by (simp add: add_bash_allowed_tools)
qed

theorem permission_synthesis_witness:
  "bash_commands ''List files: !`ls`'' = [''ls'']
   \<and> (\<exists>fixes new_metadata.
         apply_fixes [(''allowed-tools'', VStr ''Edit'')] ''List files: !`ls`''
           = Inr (fixes, new_metadata)
         \<and> map_of new_metadata ''allowed-tools'' = Some (VStr ''Edit, Bash''))
   \<and> (\<exists>fixes new_metadata.
         apply_fixes [(''allowed-tools'', VList [''Edit''])] ''List files: !`ls`''
           = Inr (fixes, new_metadata)
         \<and> map_of new_metadata ''allowed-tools'' = Some (VList [''Edit'', ''Bash'']))
   \<and> (\<exists>fixes new_metadata.
         apply_fixes [(''allowed-tools'', VList [''Bash'', ''Edit''])] ''List files: !`ls`''
           = Inr (fixes, new_metadata)
         \<and> map_of new_metadata ''allowed-tools'' = Some (VList [''Bash'', ''Edit'']))
   \<and> (\<exists>fixes new_metadata.
         apply_fixes [] ''List files: !`ls`'' = Inr (fixes, new_metadata)
         \<and> map_of new_metadata ''allowed-tools'' = Some (VStr ''Bash''))"
proof -
  have b: "bash_commands ''List files: !`ls`'' = [''ls'']"
    by (simp add: bash_commands.simps backtick_def)
  then have hb: "bash_commands ''List files: !`ls`'' \<noteq> []" by simp
  have c1: "\<exists>fixes new_metadata.
         apply_fixes [(''allowed-tools'', VStr ''Edit'')] ''List files: !`ls`''
           = Inr (fixes, new_metadata)
         \<and> map_of new_metadata ''allowed-tools'' = Some (VStr ''Edit, Bash'')"
    using permission_synthesis [OF hb, of "[(''allowed-tools'', VStr ''Edit'')]"] by simp
  have n: "\<not> (\<exists>t \<in> set [''Edit'']. str_in ''Bash'' t)" by simp
  have c2: "\<exists>fixes new_metadata.
         apply_fixes [(''allowed-tools'', VList [''Edit''])] ''List files: !`ls`''
           = Inr (fixes, new_metadata)
         \<and> map_of new_metadata ''allowed-tools'' = Some (VList [''Edit'', ''Bash''])"
    using permission_synthesis [OF hb, of "[(''allowed-tools'', VList [''Edit''])]",
        THEN conjunct2, THEN conjunct1, rule_format, of "[''Edit'']"] n
    by auto
  have c3: "\<exists>fixes new_metadata.
         apply_fixes [(''allowed-tools'', VList [''Bash'', ''Edit''])] ''List files: !`ls`''
           = Inr (fixes, new_metadata)
         \<and> map_of new_metadata ''allowed-tools'' = Some (VList [''Bash'', ''Edit''])"
    using permission_synthesis [OF hb, of "[(''allowed-tools'', VList [''Bash'', ''Edit''])]",
        THEN conjunct2, THEN conjunct1, rule_format, of "[''Bash'', ''Edit'']"]
    by auto
  have c4: "\<exists>fixes new_metadata.
         apply_fixes [] ''List files: !`ls`'' = Inr (fixes, new_metadata)
         \<and> map_of new_metadata ''allowed-tools'' = Some (VStr ''Bash'')"
    using permission_synthesis [OF hb, of "[]"] by simp
  from b c1 c2 c3 c4 show ?thesis by (intro conjI)
qed

text \<open>An entry that only contains \<^verbatim>\<open>Bash\<close>, such as \<^verbatim>\<open>Bashful\<close>, counts as the
  declaration: the sequence has no entry \<^verbatim>\<open>Bash\<close>, and the fixer appends nothing and
  records no fix.\<close>

theorem substring_entry_blocks_append:
  "bash_commands ''List files: !`ls`'' = [''ls'']
   \<and> ''Bash'' \<notin> set [''Bashful'']
   \<and> check_bash_permissions [(''allowed-tools'', VList [''Bashful''])] ''List files: !`ls`''
       = Inr []
   \<and> apply_fixes [(''allowed-tools'', VList [''Bashful''])] ''List files: !`ls`''
       = Inr ([], [(''allowed-tools'', VList [''Bashful''])])"
proof -
  have b: "bash_commands ''List files: !`ls`'' = [''ls'']"
    by (simp add: bash_commands.simps backtick_def)
  have s: "str_in ''Bash'' ''Bashful''"
    by code_simp
  have c: "check_bash_permissions [(''allowed-tools'', VList [''Bashful''])] ''List files: !`ls`''
             = Inr []"
    using s by (simp add: check_bash_permissions_def b)
  have p: "positional_args ''List files: !`ls`'' = []"
    by code_simp
  have a: "\<not> str_in ''$ARGUMENTS'' ''List files: !`ls`''"
    by code_simp
  have f: "fix_metadata [(''allowed-tools'', VList [''Bashful''])] ''List files: !`ls`''
             = ([(''allowed-tools'', VList [''Bashful''])], [])"
    using p a
    by (simp add: fix_metadata_def fix_description_def fix_argument_hint_list_def
        add_argument_hint_def)
  have r: "apply_fixes [(''allowed-tools'', VList [''Bashful''])] ''List files: !`ls`''
             = Inr ([], [(''allowed-tools'', VList [''Bashful''])])"
    by (simp add: apply_fixes_def f c)
  from b c r show ?thesis by simp
qed

subsection \<open>Diagnostics of the validator\<close>

lemma add_warning_fields [simp]:
  "errors (add_warning m r) = errors r"
  "is_valid (add_warning m r) = is_valid r"
  "warnings (add_warning m r) = warnings r @ [m]"
  "info (add_warning m r) = info r"
  by (simp_all add: add_warning_def)

lemma add_info_fields [simp]:
  "errors (add_info m r) = errors r"
  "is_valid (add_info m r) = is_valid r"
  "warnings (add_info m r) = warnings r"
  "info (add_info m r) = info r @ [m]"
  by (simp_all add: add_info_def)

lemma add_error_fields [simp]:
  "errors (add_error m r) = errors r @ [m]"
  "is_valid (add_error m r) = False"
  "warnings (add_error m r) = warnings r"
  "info (add_error m r) = info r"
  by (simp_all add: add_error_def)

lemma check_tools_fields [simp]:
  "errors (check_tools ts r) = errors r"
  "is_valid (check_tools ts r) = is_valid r"
  by (induction ts r rule: check_tools.induct) simp_all

lemma check_unknown_fields_fields [simp]:
  "errors (check_unknown_fields md r) = errors r"
  "is_valid (check_unknown_fields md r) = is_valid r"
  by (simp_all add: check_unknown_fields_def Let_def)

lemma check_argument_hint_fields [simp]:
  "errors (check_argument_hint md r) = errors r"
  "is_valid (check_argument_hint md r) = is_valid r"
  by (simp_all add: check_argument_hint_def Let_def split: option.splits)

lemma validate_arguments_fields [simp]:
  "errors (validate_arguments md body r) = errors r"
  "is_valid (validate_arguments md body r) = is_valid r"
  by (simp_all add: validate_arguments_def Let_def)

lemma check_model_fields:
  "check_model md r = Inr r' \<Longrightarrow> errors r' = errors r \<and> is_valid r' = is_valid r"
  by (auto simp: check_model_def split: option.splits pyval.splits if_splits)

lemma check_model_raises:
  "check_model md r = Inl e \<Longrightarrow> \<exists>xs. map_of md ''model'' = Some (VList xs)"
  by (auto simp: check_model_def split: option.splits pyval.splits if_splits)

lemma check_description_no_bash_error:
  "bash_error \<notin> set (errors r) \<Longrightarrow> bash_error \<notin> set (errors (check_description md r))"
  by (simp add: check_description_def bash_error_def Let_def split: option.splits)

lemma check_disable_no_bash_error:
  "bash_error \<notin> set (errors r)
     \<Longrightarrow> bash_error \<notin> set (errors (check_disable_model_invocation md r))"
  by (simp add: check_disable_model_invocation_def bash_error_def
      split: option.splits pyval.splits)

lemma validate_frontmatter_no_bash_error:
  assumes "map_of md ''allowed-tools'' = None" and "bash_error \<notin> set (errors r)"
  shows "case validate_frontmatter md r of
           Inl (e, r') \<Rightarrow> bash_error \<notin> set (errors r')
         | Inr r' \<Rightarrow> bash_error \<notin> set (errors r')"
proof (cases "md = []")
  case True
  then show ?thesis using assms(2) by (simp add: validate_frontmatter_def)
next
  case False
  let ?r2 = "check_description md (check_unknown_fields md r)"
  have 2: "bash_error \<notin> set (errors ?r2)"
    using assms(2) by (simp add: check_description_no_bash_error)
  show ?thesis
  proof (cases "check_model md ?r2")
    case (Inl e)
    then show ?thesis
      using False assms(1) 2 by (simp add: validate_frontmatter_def Let_def)
  next
    case (Inr r4)
    then have "bash_error \<notin> set (errors r4)"
      using check_model_fields [OF Inr] 2 by simp
    then have "bash_error \<notin> set (errors (check_disable_model_invocation md
                  (check_argument_hint md r4)))"
      by (simp add: check_disable_no_bash_error)
    then show ?thesis
      using False assms(1) Inr by (simp add: validate_frontmatter_def Let_def)
  qed
qed

lemma validate_frontmatter_raises:
  "validate_frontmatter md r = Inl (e, r') \<Longrightarrow> \<exists>xs. map_of md ''model'' = Some (VList xs)"
  by (auto simp: validate_frontmatter_def Let_def split: if_splits sum.splits
      dest: check_model_raises)

lemma strip_empty: "strip s = [] \<Longrightarrow> \<forall>c \<in> set s. is_space c"
proof
  fix c
  assume e: "strip s = []" and c: "c \<in> set s"
  show "is_space c"
  proof (rule ccontr)
    assume n: "\<not> is_space c"
    then have ne: "dropWhile is_space s \<noteq> []"
      using c by (auto simp: dropWhile_eq_Nil_conv)
    then have "\<not> is_space (hd (dropWhile is_space s))"
      by (rule hd_dropWhile)
    moreover have "hd (dropWhile is_space s) \<in> set (rev (dropWhile is_space s))"
      using ne by simp
    moreover have "\<forall>x \<in> set (rev (dropWhile is_space s)). is_space x"
      using e by (simp add: strip_def dropWhile_eq_Nil_conv)
    ultimately show False by blast
  qed
qed

lemma bash_commands_mark: "bash_commands s \<noteq> [] \<Longrightarrow> CHR ''!'' \<in> set s"
proof (induction s)
  case Nil
  then show ?case by (simp add: bash_commands.simps)
next
  case (Cons c cs)
  show ?case
  proof (cases "c = CHR ''!''")
    case True
    then show ?thesis by simp
  next
    case False
    then have "bash_commands (c # cs) = bash_commands cs"
      by (simp add: bash_commands.simps(2) [of c cs] split: list.splits)
    then show ?thesis using Cons by simp
  qed
qed

lemma marked_body_not_blank: "bash_commands body \<noteq> [] \<Longrightarrow> strip body \<noteq> []"
proof
  assume "bash_commands body \<noteq> []" and "strip body = []"
  then have "is_space CHR ''!''"
    using bash_commands_mark strip_empty by blast
  then show False by (simp add: is_space_def)
qed

lemma validate_content_errors:
  assumes "bash_commands body \<noteq> []"
  shows "errors (validate_content body mc r) = errors (check_bash_allowed mc r)"
    and "is_valid (validate_content body mc r) = is_valid (check_bash_allowed mc r)"
  using assms marked_body_not_blank [OF assms]
  by (simp_all add: validate_content_def Let_def check_bash_allowed_def
      split: option.splits)

text \<open>
  Claim C6, as the code has it. A document parses to a metadata dictionary and a body that
  contains a shell-execution marker. If \<^verbatim>\<open>allowed-tools\<close> is present and its text
  (\<^verbatim>\<open>str\<close> of the value) does not contain \<^verbatim>\<open>Bash\<close>, the validator reports an Error and the
  document is invalid; the Error is the one of the permission check unless \<^verbatim>\<open>model\<close> is a
  list, on which \<^verbatim>\<open>_validate_frontmatter\<close> raises before. If \<^verbatim>\<open>allowed-tools\<close> is absent,
  the validator does not report the Error of the permission check.
\<close>

theorem validator_permission_error:
  assumes "loads content = Inr (metadata, body)" and "bash_commands body \<noteq> []"
  shows "(\<forall>v. map_of metadata ''allowed-tools'' = Some v \<and> \<not> str_in ''Bash'' (py_str v)
            \<longrightarrow> errors (validate_file loads path content) \<noteq> []
                \<and> \<not> is_valid (validate_file loads path content)
                \<and> ((\<forall>xs. map_of metadata ''model'' \<noteq> Some (VList xs))
                      \<longrightarrow> bash_error \<in> set (errors (validate_file loads path content))))
         \<and> (map_of metadata ''allowed-tools'' = None
               \<longrightarrow> bash_error \<notin> set (errors (validate_file loads path content)))"
proof -
  let ?r0 = "\<lparr>file_path = path, is_valid = True, errors = [], warnings = [], info = []\<rparr>"
  have g: "get_frontmatter_from_file loads content = Some metadata"
    using assms(1) by (simp add: get_frontmatter_from_file_def)
  show ?thesis
  proof (cases "validate_frontmatter metadata ?r0")
    case (Inl a)
    obtain e r where a: "a = (e, r)" by (cases a)
    have v: "validate_file loads path content = add_error (''Unexpected error: '' @ exn_str e) r"
      using assms(1) Inl a by (simp add: validate_file_def)
    have m: "\<exists>xs. map_of metadata ''model'' = Some (VList xs)"
      using Inl a validate_frontmatter_raises by blast
    have n: "bash_error \<notin> set (errors r)" if "map_of metadata ''allowed-tools'' = None"
      using validate_frontmatter_no_bash_error [OF that, of ?r0] Inl a by simp
    show ?thesis
      unfolding v using m n by (auto simp: bash_error_def)
  next
    case (Inr r)
    have v: "validate_file loads path content
               = validate_arguments metadata body (validate_content body (Some metadata) r)"
      using assms(1) Inr g by (simp add: validate_file_def)
    have e: "errors (validate_file loads path content)
               = errors (check_bash_allowed (Some metadata) r)"
      and i: "is_valid (validate_file loads path content)
               = is_valid (check_bash_allowed (Some metadata) r)"
      unfolding v using validate_content_errors [OF assms(2)] by simp_all
    have n: "bash_error \<notin> set (errors r)" if "map_of metadata ''allowed-tools'' = None"
      using validate_frontmatter_no_bash_error [OF that, of ?r0] Inr by simp
    have p: "errors (check_bash_allowed (Some metadata) r) = errors r @ [bash_error]
             \<and> \<not> is_valid (check_bash_allowed (Some metadata) r)"
      if "map_of metadata ''allowed-tools'' = Some v" and "\<not> str_in ''Bash'' (py_str v)" for v
    proof -
      have "metadata \<noteq> []" using that(1) by auto
      then show ?thesis
        using that by (simp add: check_bash_allowed_def bash_error_def)
    qed
    have q: "errors (check_bash_allowed (Some metadata) r) = errors r"
      if "map_of metadata ''allowed-tools'' = None"
      using that by (simp add: check_bash_allowed_def)
    show ?thesis
      unfolding e i using n p q by auto
  qed
qed

lemma example_body_commands: "bash_commands ''List files: !`ls`'' = [''ls'']"
  by (simp add: bash_commands.simps backtick_def)

lemma example_body_plain:
  "strip ''List files: !`ls`'' = ''List files: !`ls`''"
  "file_refs ''List files: !`ls`'' = []"
  "positional_args ''List files: !`ls`'' = []"
  "\<not> str_in ''$ARGUMENTS'' ''List files: !`ls`''"
  "\<not> (\<exists>keyword \<in> set [''<ultrathink>'', ''<megaexpertise>'', ''<think>'', ''<thinking>''].
        str_in keyword ''List files: !`ls`'')"
  by (simp_all add: strip_def is_space_def file_refs.simps positional_args.simps)

lemma example_description_document:
  "validate_file example_loads ''commands/ls.md''
     ''---\<newline>description: List the files\<newline>---\<newline>\<newline>List files: !`ls`''
   = \<lparr>file_path = ''commands/ls.md'', is_valid = True, errors = [], warnings = [],
       info = [''Found 1 bash command execution(s)'']\<rparr>"
proof -
  let ?r0 = "\<lparr>file_path = ''commands/ls.md'', is_valid = True, errors = [], warnings = [],
               info = []\<rparr>"
  let ?md = "[(''description'', VStr ''List the files'')]"
  have l: "example_loads
      ''---\<newline>description: List the files\<newline>---\<newline>\<newline>List files: !`ls`''
      = Inr (?md, ''List files: !`ls`'')"
    by (simp add: example_loads_def)
  have d: "check_description ?md ?r0 = ?r0"
    by (simp add: check_description_def strip_def is_space_def)
  have f: "validate_frontmatter ?md ?r0 = Inr ?r0"
    by (simp add: validate_frontmatter_def check_unknown_fields_def
        VALID_FRONTMATTER_FIELDS_def d check_model_def check_argument_hint_def
        check_disable_model_invocation_def)
  have c: "validate_content ''List files: !`ls`'' (Some ?md) ?r0
             = add_info ''Found 1 bash command execution(s)'' ?r0"
    by (simp add: validate_content_def example_body_commands example_body_plain
        check_bash_allowed_def str_int_def str_nat.simps digit_char_def)
  have a: "validate_arguments ?md ''List files: !`ls`'' r = r" for r
    by (simp add: validate_arguments_def example_body_plain)
  show ?thesis
    by (simp add: validate_file_def l f get_frontmatter_from_file_def c a add_info_def)
qed

theorem validator_silent_without_allowed_tools:
  "example_loads
      ''---\<newline>description: List the files\<newline>---\<newline>\<newline>List files: !`ls`''
     = Inr ([(''description'', VStr ''List the files'')], ''List files: !`ls`'')
   \<and> bash_commands ''List files: !`ls`'' = [''ls'']
   \<and> map_of [(''description'', VStr ''List the files'')] ''allowed-tools'' = None
   \<and> errors (validate_file example_loads ''commands/ls.md''
        ''---\<newline>description: List the files\<newline>---\<newline>\<newline>List files: !`ls`'') = []
   \<and> is_valid (validate_file example_loads ''commands/ls.md''
        ''---\<newline>description: List the files\<newline>---\<newline>\<newline>List files: !`ls`'')"
  by (simp add: example_description_document example_body_commands)
    (simp add: example_loads_def)

theorem validator_permission_error_witness:
  "example_loads ''---\<newline>allowed-tools: Edit\<newline>---\<newline>\<newline>List files: !`ls`''
     = Inr ([(''allowed-tools'', VStr ''Edit'')], ''List files: !`ls`'')
   \<and> bash_commands ''List files: !`ls`'' \<noteq> []
   \<and> map_of [(''allowed-tools'', VStr ''Edit'')] ''allowed-tools'' = Some (VStr ''Edit'')
   \<and> \<not> str_in ''Bash'' (py_str (VStr ''Edit''))
   \<and> \<not> is_valid (validate_file example_loads ''commands/ls.md''
        ''---\<newline>allowed-tools: Edit\<newline>---\<newline>\<newline>List files: !`ls`'')
   \<and> bash_error \<in> set (errors (validate_file example_loads ''commands/ls.md''
        ''---\<newline>allowed-tools: Edit\<newline>---\<newline>\<newline>List files: !`ls`''))"
proof -
  have l: "example_loads ''---\<newline>allowed-tools: Edit\<newline>---\<newline>\<newline>List files: !`ls`''
     = Inr ([(''allowed-tools'', VStr ''Edit'')], ''List files: !`ls`'')"
    by (simp add: example_loads_def)
  have b: "bash_commands ''List files: !`ls`'' \<noteq> []"
    by (simp add: example_body_commands)
  have m: "map_of [(''allowed-tools'', VStr ''Edit'')] ''allowed-tools'' = Some (VStr ''Edit'')"
    by simp
  have s: "\<not> str_in ''Bash'' (py_str (VStr ''Edit''))" by simp
  have n: "\<forall>xs. map_of [(''allowed-tools'', VStr ''Edit'')] ''model'' \<noteq> Some (VList xs)"
    by simp
  note t = validator_permission_error [where loads = example_loads
      and path = "''commands/ls.md''", OF l b, THEN conjunct1,
      rule_format, of "VStr ''Edit''", OF conjI [OF m s]]
  from t have v: "\<not> is_valid (validate_file example_loads ''commands/ls.md''
        ''---\<newline>allowed-tools: Edit\<newline>---\<newline>\<newline>List files: !`ls`'')"
    by blast
  from t n have e: "bash_error \<in> set (errors (validate_file example_loads ''commands/ls.md''
        ''---\<newline>allowed-tools: Edit\<newline>---\<newline>\<newline>List files: !`ls`''))"
    by blast
  from l b m s v e show ?thesis by (intro conjI)
qed

subsection \<open>The length of the description\<close>

lemma strip_unchanged:
  assumes "s \<noteq> []" and "\<not> is_space (hd s)" and "\<not> is_space (last s)"
  shows "strip s = s"
proof -
  have 1: "dropWhile is_space s = s"
    using assms(2) by (simp add: dropWhile_eq_self_iff)
  have "dropWhile is_space (rev s) = rev s"
    using assms(1,3) by (simp add: dropWhile_eq_self_iff hd_rev)
  then show ?thesis by (simp add: strip_def 1)
qed

text \<open>
  Claim C7, as the code has it. In \<^verbatim>\<open>scripts/validate_slash_commands.py\<close> a description
  that is a string of fewer than 10 characters yields the Warning "very short", one of more
  than 200 characters the Warning "very long", and a string description never yields a
  failure. In \<^verbatim>\<open>validate_commands.py\<close> there is no lower threshold: the description is
  joined when it is a list, turned into text and stripped; more than 200 characters yield
  the Warning "very long" and nothing else, a description that is not blank and has at
  most 200 characters yields no diagnostic, and a blank description yields the Error
  "'description' field is empty".
\<close>

theorem description_length_diagnostics:
  "(\<forall>d. map_of frontmatter ''description'' = Some (VStr d) \<longrightarrow>
       (length d < 10 \<longrightarrow>
          (WARNING, ''Description is very short - consider adding more detail'')
            \<in> set (validate_description frontmatter))
     \<and> (length d > 200 \<longrightarrow>
          (WARNING, ''Description is very long - consider making it more concise'')
            \<in> set (validate_description frontmatter))
     \<and> (\<forall>x \<in> set (validate_description frontmatter). fst x = WARNING))
   \<and> (\<forall>v desc. map_of metadata ''description'' = Some v
          \<and> desc = strip (case v of VList ds \<Rightarrow> join '' '' ds | _ \<Rightarrow> py_str v) \<longrightarrow>
       (length desc > 200 \<longrightarrow>
          check_description metadata r
            = add_warning '''description' is very long (>200 chars). Consider shortening.'' r)
     \<and> (desc \<noteq> [] \<and> length desc \<le> 200 \<longrightarrow> check_description metadata r = r)
     \<and> (desc = [] \<longrightarrow>
          check_description metadata r = add_error '''description' field is empty'' r))"
proof (intro conjI allI impI)
  fix d
  assume a: "map_of frontmatter ''description'' = Some (VStr d)"
  show "(WARNING, ''Description is very short - consider adding more detail'')
          \<in> set (validate_description frontmatter)" if "length d < 10"
    using a that by (simp add: validate_description_def)
  show "(WARNING, ''Description is very long - consider making it more concise'')
          \<in> set (validate_description frontmatter)" if "length d > 200"
    using a that by (simp add: validate_description_def)
  show "\<forall>x \<in> set (validate_description frontmatter). fst x = WARNING"
    using a by (auto simp: validate_description_def)
next
  fix v desc
  assume a: "map_of metadata ''description'' = Some v
               \<and> desc = strip (case v of VList ds \<Rightarrow> join '' '' ds | _ \<Rightarrow> py_str v)"
  show "check_description metadata r
          = add_warning '''description' is very long (>200 chars). Consider shortening.'' r"
    if "length desc > 200"
    using a that by (auto simp: check_description_def Let_def)
  show "check_description metadata r = r" if "desc \<noteq> [] \<and> length desc \<le> 200"
    using a that by (auto simp: check_description_def Let_def)
  show "check_description metadata r = add_error '''description' field is empty'' r"
    if "desc = []"
    using a that by (auto simp: check_description_def Let_def)
qed

theorem short_description_unreported:
  "validate_frontmatter [(''description'', VStr ''Hi'')]
       \<lparr>file_path = ''commands/hi.md'', is_valid = True, errors = [], warnings = [], info = []\<rparr>
     = Inr \<lparr>file_path = ''commands/hi.md'', is_valid = True, errors = [], warnings = [],
            info = []\<rparr>
   \<and> validate_frontmatter [(''description'', VStr [])]
       \<lparr>file_path = ''commands/hi.md'', is_valid = True, errors = [], warnings = [], info = []\<rparr>
     = Inr \<lparr>file_path = ''commands/hi.md'', is_valid = False,
            errors = ['''description' field is empty''], warnings = [], info = []\<rparr>"
  by (simp add: validate_frontmatter_def check_unknown_fields_def
      VALID_FRONTMATTER_FIELDS_def check_description_def strip_def is_space_def
      check_model_def check_argument_hint_def check_disable_model_invocation_def
      add_error_def)

theorem description_length_diagnostics_witness:
  "(WARNING, ''Description is very short - consider adding more detail'')
      \<in> set (validate_description [(''description'', VStr ''Hi'')])
   \<and> check_description [(''description'', VStr ''Hi'')]
         \<lparr>file_path = ''commands/hi.md'', is_valid = True, errors = [], warnings = [], info = []\<rparr>
       = \<lparr>file_path = ''commands/hi.md'', is_valid = True, errors = [], warnings = [], info = []\<rparr>
   \<and> check_description [(''description'', VStr (replicate 201 CHR ''a''))]
         \<lparr>file_path = ''commands/hi.md'', is_valid = True, errors = [], warnings = [], info = []\<rparr>
       = \<lparr>file_path = ''commands/hi.md'', is_valid = True, errors = [],
           warnings = ['''description' is very long (>200 chars). Consider shortening.''],
           info = []\<rparr>
   \<and> check_description [(''description'', VStr ''  '')]
         \<lparr>file_path = ''commands/hi.md'', is_valid = True, errors = [], warnings = [], info = []\<rparr>
       = \<lparr>file_path = ''commands/hi.md'', is_valid = False,
           errors = ['''description' field is empty''], warnings = [], info = []\<rparr>"
proof -
  let ?r = "\<lparr>file_path = ''commands/hi.md'', is_valid = True, errors = [], warnings = [],
              info = []\<rparr>"
  have s1: "strip ''Hi'' = ''Hi''" by (simp add: strip_def is_space_def)
  have s2: "strip (replicate 201 CHR ''a'') = replicate 201 CHR ''a''"
    by (rule strip_unchanged) (simp_all add: is_space_def)
  have s3: "strip ''  '' = []" by (simp add: strip_def is_space_def)
  have c1: "(WARNING, ''Description is very short - consider adding more detail'')
      \<in> set (validate_description [(''description'', VStr ''Hi'')])"
    using description_length_diagnostics [where frontmatter = "[(''description'', VStr ''Hi'')]",
        THEN conjunct1, rule_format, of "''Hi''", THEN conjunct1]
    by simp
  have c2: "check_description [(''description'', VStr ''Hi'')] ?r = ?r"
    using description_length_diagnostics [where metadata = "[(''description'', VStr ''Hi'')]"
        and r = ?r, THEN conjunct2, rule_format, of "VStr ''Hi''" "''Hi''",
        THEN conjunct2, THEN conjunct1]
    by (simp add: s1)
  have c3: "check_description [(''description'', VStr (replicate 201 CHR ''a''))] ?r
      = add_warning '''description' is very long (>200 chars). Consider shortening.'' ?r"
    using description_length_diagnostics
        [where metadata = "[(''description'', VStr (replicate 201 CHR ''a''))]"
        and r = ?r, THEN conjunct2, rule_format,
        of "VStr (replicate 201 CHR ''a'')" "replicate 201 CHR ''a''", THEN conjunct1]
    by (simp add: s2)
  have c4: "check_description [(''description'', VStr ''  '')] ?r
      = add_error '''description' field is empty'' ?r"
    using description_length_diagnostics [where metadata = "[(''description'', VStr ''  '')]"
        and r = ?r, THEN conjunct2, rule_format, of "VStr ''  ''" "[]",
        THEN conjunct2, THEN conjunct2]
    by (simp add: s3)
  from c1 c2 c3 c4 show ?thesis
    by (simp add: add_warning_def add_error_def)
qed

subsection \<open>A frontmatter block that is not closed\<close>

lemma split_on_not_Nil [simp]: "split_on c s \<noteq> []"
  by (induction s) (auto split: list.splits)

lemma split_on_append:
  "split_on c (x @ c # y) = split_on c x @ split_on c y"
proof (induction x)
  case Nil
  then show ?case by simp
next
  case (Cons d x)
  obtain l ls where s: "split_on c x = l # ls"
    by (cases "split_on c x") simp_all
  show ?case
    by (cases "d = c") (simp_all add: Cons s)
qed

lemma split_at_first_Some:
  "split_at_first sep s = Some (a, b) \<Longrightarrow> s = a @ sep @ b"
proof (induction s arbitrary: a)
  case Nil
  then show ?case by (simp split: if_splits)
next
  case (Cons c cs)
  show ?case
  proof (cases "prefix sep (c # cs)")
    case True
    then have "a = []" and "b = drop (length sep) (c # cs)"
      using Cons.prems by simp_all
    moreover have "c # cs = sep @ drop (length sep) (c # cs)"
      using True by (auto simp: prefix_def)
    ultimately show ?thesis by simp
  next
    case False
    then obtain a' where "split_at_first sep cs = Some (a', b)" and "a = c # a'"
      using Cons.prems by (auto split: option.splits)
    then show ?thesis using Cons.IH by simp
  qed
qed

lemma fm_match_closed:
  assumes "fm_match content = Some (a, b)"
  shows "has_closing_marker content"
proof -
  have p: "prefix ''---\<newline>'' content"
    and s: "split_at_first ''\<newline>---\<newline>'' (drop 4 content) = Some (a, b)"
    using assms by (simp_all add: fm_match_def split: if_splits)
  obtain rest where r: "content = ''---\<newline>'' @ rest"
    using p by (auto simp: prefix_def)
  have "drop 4 content = rest"
    by (simp add: r)
  then have "rest = a @ ''\<newline>---\<newline>'' @ b"
    using split_at_first_Some [OF s] by simp
  then have c: "content = ''---'' @ newline # (a @ newline # (''---'' @ newline # b))"
    by (simp add: r newline_def)
  have m: "split_on newline ''---'' = [''---'']"
    by (simp add: newline_def)
  have "split_on newline (''---'' @ newline # (a @ newline # (''---'' @ newline # b)))
          = split_on newline ''---'' @ split_on newline a
              @ split_on newline ''---'' @ split_on newline b"
    by (simp only: split_on_append)
  then have "split_on newline content
          = ''---'' # (split_on newline a @ [''---''] @ split_on newline b)"
    unfolding c m by simp
  then show ?thesis
    by (simp add: has_closing_marker_def marker_line_def)
qed

lemma spec_loads_unclosed:
  assumes "opens_with_marker content" and "\<not> has_closing_marker content"
  shows "spec_loads decode content = Inl ''no closing marker''"
  using assms
  by (auto simp: spec_loads_def opens_with_marker_def has_closing_marker_def
      split: list.splits)

text \<open>
  Claim C2. The text of a document opens with a marker line and has no closing marker line.
  Then parsing fails (by the parser of the specification), the validator yields one Error
  and no other diagnostic, and the fixer attempts no repair and writes nothing: the stored
  document stays as it is, with or without \<^verbatim>\<open>--dry-run\<close>.
\<close>

theorem unclosed_frontmatter:
  assumes "opens_with_marker content" and "\<not> has_closing_marker content"
  shows "validate_file (spec_loads decode) path content
           = \<lparr>file_path = path, is_valid = False,
               errors = [''Failed to parse frontmatter: no closing marker''],
               warnings = [], info = []\<rparr>
         \<and> fix_frontmatter_syntax content = (content, [])
         \<and> snd (fix_file (spec_loads decode) dumps dry_run content) = None
         \<and> stored content (snd (fix_file (spec_loads decode) dumps dry_run content)) = content"
proof -
  note l = spec_loads_unclosed [OF assms, of decode]
  have v: "validate_file (spec_loads decode) path content
           = \<lparr>file_path = path, is_valid = False,
               errors = [''Failed to parse frontmatter: no closing marker''],
               warnings = [], info = []\<rparr>"
    by (simp add: validate_file_def l add_error_def)
  have "fm_match content = None"
    using fm_match_closed assms(2) by (cases "fm_match content") auto
  then have r: "fix_frontmatter_syntax content = (content, [])"
    by (simp add: fix_frontmatter_syntax_def)
  have f: "snd (fix_file (spec_loads decode) dumps dry_run content) = None"
    by (simp add: fix_file_def parse_with_repair_def l r)
  from v r f show ?thesis by (simp add: stored_def)
qed

theorem unclosed_frontmatter_witness:
  "opens_with_marker ''---\<newline>description: draft\<newline>List files: !`ls`''
   \<and> \<not> has_closing_marker ''---\<newline>description: draft\<newline>List files: !`ls`''
   \<and> validate_file (spec_loads Inl) ''commands/ls.md''
         ''---\<newline>description: draft\<newline>List files: !`ls`''
       = \<lparr>file_path = ''commands/ls.md'', is_valid = False,
           errors = [''Failed to parse frontmatter: no closing marker''],
           warnings = [], info = []\<rparr>
   \<and> stored ''---\<newline>description: draft\<newline>List files: !`ls`''
         (snd (fix_file (spec_loads Inl) example_dumps False
                 ''---\<newline>description: draft\<newline>List files: !`ls`''))
       = ''---\<newline>description: draft\<newline>List files: !`ls`''"
proof -
  have s: "split_on newline ''---\<newline>description: draft\<newline>List files: !`ls`''
             = [''---'', ''description: draft'', ''List files: !`ls`'']"
    by (simp add: newline_def)
  have h1: "opens_with_marker ''---\<newline>description: draft\<newline>List files: !`ls`''"
    unfolding opens_with_marker_def s marker_line_def by simp
  have h2: "\<not> has_closing_marker ''---\<newline>description: draft\<newline>List files: !`ls`''"
    unfolding has_closing_marker_def s marker_line_def by simp
  note t = unclosed_frontmatter [OF h1 h2, of Inl "''commands/ls.md''" example_dumps False]
  from t have c1: "validate_file (spec_loads Inl) ''commands/ls.md''
         ''---\<newline>description: draft\<newline>List files: !`ls`''
       = \<lparr>file_path = ''commands/ls.md'', is_valid = False,
           errors = [''Failed to parse frontmatter: no closing marker''],
           warnings = [], info = []\<rparr>"
    by (rule conjunct1)
  from t have c2: "stored ''---\<newline>description: draft\<newline>List files: !`ls`''
         (snd (fix_file (spec_loads Inl) example_dumps False
                 ''---\<newline>description: draft\<newline>List files: !`ls`''))
       = ''---\<newline>description: draft\<newline>List files: !`ls`''"
    by (rule conjunct2 [THEN conjunct2, THEN conjunct2])
  from h1 h2 c1 c2 show ?thesis by (intro conjI)
qed

subsection \<open>What a pass over the metadata changes\<close>

lemma fix_description_cases:
  "fix_description (md, fx) = (md, fx)
   \<or> (\<exists>ds. map_of md ''description'' = Some (VList ds)
          \<and> fix_description (md, fx)
              = (AList.update ''description'' (VStr (join '' '' ds)) md,
                 fx @ [''Converted description from list to string'']))"
  by (simp add: fix_description_def split: option.splits pyval.splits)

lemma fix_argument_hint_list_cases:
  "fix_argument_hint_list (md, fx) = (md, fx)
   \<or> (\<exists>hs. map_of md ''argument-hint'' = Some (VList hs)
          \<and> fix_argument_hint_list (md, fx)
              = (AList.update ''argument-hint'' (VStr (join '' '' hs)) md,
                 fx @ [''Converted argument-hint from list to string'']))"
  by (simp add: fix_argument_hint_list_def split: option.splits pyval.splits)

lemma add_argument_hint_cases:
  "add_argument_hint body (md, fx) = (md, fx)
   \<or> (\<exists>h m. map_of md ''argument-hint'' = None
          \<and> add_argument_hint body (md, fx)
              = (AList.update ''argument-hint'' (VStr h) md, fx @ [m]))"
  by (auto simp: add_argument_hint_def Let_def split: list.splits)

lemma update_changes:
  "map_of md k \<noteq> Some v \<Longrightarrow> AList.update k v md \<noteq> md"
  by (metis map_of_update)

text \<open>The step of a fix: the fixes grow by \<open>new\<close>; without a new fix the dictionary is
  the same, with one the value of the key \<open>k\<close> differs; other keys keep their values.\<close>

lemma fix_description_step:
  obtains new where "snd (fix_description (md, fx)) = fx @ new"
    and "new = [] \<Longrightarrow> fst (fix_description (md, fx)) = md"
    and "new \<noteq> [] \<Longrightarrow> map_of (fst (fix_description (md, fx))) ''description''
                        \<noteq> map_of md ''description''"
proof -
  consider "fix_description (md, fx) = (md, fx)"
    | ds where "map_of md ''description'' = Some (VList ds)"
        "fix_description (md, fx)
           = (AList.update ''description'' (VStr (join '' '' ds)) md,
              fx @ [''Converted description from list to string''])"
    using fix_description_cases by blast
  then show ?thesis
  proof cases
    case 1
    show ?thesis by (rule that [of "[]"]) (simp_all add: 1)
  next
    case 2
    show ?thesis
      by (rule that [of "[''Converted description from list to string'']"])
        (simp_all add: 2 map_of_update)
  qed
qed

lemma hint_steps:
  obtains new where
    "snd (add_argument_hint body (fix_argument_hint_list (md, fx))) = fx @ new"
    and "new = [] \<Longrightarrow> fst (add_argument_hint body (fix_argument_hint_list (md, fx))) = md"
    and "new \<noteq> [] \<Longrightarrow>
           map_of (fst (add_argument_hint body (fix_argument_hint_list (md, fx))))
             ''argument-hint'' \<noteq> map_of md ''argument-hint''"
proof -
  consider (same) "fix_argument_hint_list (md, fx) = (md, fx)"
    | (joined) hs where "map_of md ''argument-hint'' = Some (VList hs)"
        "fix_argument_hint_list (md, fx)
           = (AList.update ''argument-hint'' (VStr (join '' '' hs)) md,
              fx @ [''Converted argument-hint from list to string''])"
    using fix_argument_hint_list_cases by blast
  then show ?thesis
  proof cases
    case same
    consider (none) "add_argument_hint body (md, fx) = (md, fx)"
      | (added) h m where "map_of md ''argument-hint'' = None"
          "add_argument_hint body (md, fx)
             = (AList.update ''argument-hint'' (VStr h) md, fx @ [m])"
      using add_argument_hint_cases by blast
    then show ?thesis
    proof cases
      case none
      show ?thesis by (rule that [of "[]"]) (simp_all add: same none)
    next
      case added
      show ?thesis by (rule that [of "[m]"]) (simp_all add: same added map_of_update)
    qed
  next
    case joined
    let ?md = "AList.update ''argument-hint'' (VStr (join '' '' hs)) md"
    let ?fx = "fx @ [''Converted argument-hint from list to string'']"
    have "map_of ?md ''argument-hint'' \<noteq> None" by (simp add: map_of_update)
    then have a: "add_argument_hint body (?md, ?fx) = (?md, ?fx)"
      using add_argument_hint_cases [of body ?md ?fx] by auto
    show ?thesis
      by (rule that [of "[''Converted argument-hint from list to string'']"])
        (simp_all add: joined a map_of_update)
  qed
qed

lemma hint_steps_other:
  "k \<noteq> ''argument-hint'' \<Longrightarrow>
     map_of (fst (add_argument_hint body (fix_argument_hint_list (md, fx)))) k = map_of md k"
proof -
  assume k: "k \<noteq> ''argument-hint''"
  obtain m2 f2 where b: "fix_argument_hint_list (md, fx) = (m2, f2)"
    by (cases "fix_argument_hint_list (md, fx)")
  have 2: "map_of m2 k = map_of md k"
    using b k
    by (auto simp: fix_argument_hint_list_def map_of_update split: option.splits pyval.splits)
  have 3: "map_of (fst (add_argument_hint body (m2, f2))) k = map_of m2 k"
    using k by (auto simp: add_argument_hint_def Let_def map_of_update split: list.splits)
  show ?thesis by (simp add: b 2 3)
qed

lemma fix_metadata_changes:
  "snd (fix_metadata md body) = [] \<longleftrightarrow> fst (fix_metadata md body) = md"
proof -
  obtain m1 f1 where d: "fix_description (md, []) = (m1, f1)"
    by (cases "fix_description (md, [])")
  obtain new1 where n1: "f1 = new1" "new1 = [] \<Longrightarrow> m1 = md"
    "new1 \<noteq> [] \<Longrightarrow> map_of m1 ''description'' \<noteq> map_of md ''description''"
    using fix_description_step [of md "[]"] d by auto
  obtain new2 where n2:
    "snd (add_argument_hint body (fix_argument_hint_list (m1, f1))) = f1 @ new2"
    "new2 = [] \<Longrightarrow> fst (add_argument_hint body (fix_argument_hint_list (m1, f1))) = m1"
    "new2 \<noteq> [] \<Longrightarrow>
       map_of (fst (add_argument_hint body (fix_argument_hint_list (m1, f1))))
         ''argument-hint'' \<noteq> map_of m1 ''argument-hint''"
    using hint_steps [of body m1 f1] by blast
  let ?m = "fst (add_argument_hint body (fix_argument_hint_list (m1, f1)))"
  have r: "fix_metadata md body = (?m, new1 @ new2)"
    using n1(1) n2(1) by (simp add: fix_metadata_def d prod_eq_iff)
  have o1: "map_of ?m ''description'' = map_of m1 ''description''"
    by (rule hint_steps_other) simp
  have o2: "map_of m1 ''argument-hint'' = map_of md ''argument-hint''"
    using fix_description_other [of "''argument-hint''" md "[]"] d by simp
  show ?thesis
  proof (cases "new1 = [] \<and> new2 = []")
    case True
    then show ?thesis using r n1(2) n2(2) by simp
  next
    case False
    then have "map_of ?m ''description'' \<noteq> map_of md ''description''
               \<or> map_of ?m ''argument-hint'' \<noteq> map_of md ''argument-hint''"
    proof (cases "new2 = []")
      case True
      then have "new1 \<noteq> []" using False by simp
      then show ?thesis using n1(3) o1 by simp
    next
      case False
      then show ?thesis using n2(3) o2 by simp
    qed
    then have "?m \<noteq> md" by auto
    then show ?thesis using r False by simp
  qed
qed


subsection \<open>Fix records and writes\<close>




lemma example_edit_parse:
  "parse_with_repair example_loads
       ''---\<newline>allowed-tools: Edit\<newline>---\<newline>\<newline>List files: !`ls`''
     = Inr ([], [(''allowed-tools'', VStr ''Edit'')], ''List files: !`ls`'')"
  by (simp add: parse_with_repair_def example_loads_def)

lemma example_edit_fixes:
  "apply_fixes [(''allowed-tools'', VStr ''Edit'')] ''List files: !`ls`''
     = Inr ([''Bash commands found but Bash not in allowed-tools''],
            [(''allowed-tools'', VStr ''Edit, Bash'')])"
  by code_simp

lemma example_edit_dumps:
  "example_dumps [(''allowed-tools'', VStr ''Edit, Bash'')] ''List files: !`ls`''
     = ''---\<newline>allowed-tools: Edit, Bash\<newline>---\<newline>\<newline>List files: !`ls`''"
  by (simp add: example_dumps_def example_scalar_def newline_def)


subsection \<open>A second pass\<close>

lemma settled_fix_metadata: "settled md body \<Longrightarrow> fix_metadata md body = (md, [])"
  by (auto simp: settled_def fix_metadata_def fix_description_def fix_argument_hint_list_def
      add_argument_hint_def Let_def split: option.splits pyval.splits)

lemma fix_metadata_settled: "settled (fst (fix_metadata md body)) body"
proof -
  obtain m1 f1 where d: "fix_description (md, []) = (m1, f1)"
    by (cases "fix_description (md, [])")
  obtain m2 f2 where h: "fix_argument_hint_list (m1, f1) = (m2, f2)"
    by (cases "fix_argument_hint_list (m1, f1)")
  obtain m3 f3 where a: "add_argument_hint body (m2, f2) = (m3, f3)"
    by (cases "add_argument_hint body (m2, f2)")
  have 1: "case map_of m1 ''description'' of Some (VList ds) \<Rightarrow> False | _ \<Rightarrow> True"
    using d by (auto simp: fix_description_def map_of_update split: option.splits pyval.splits)
  have 2: "map_of m2 ''description'' = map_of m1 ''description''"
    using h by (auto simp: fix_argument_hint_list_def map_of_update
        split: option.splits pyval.splits)
  have h2: "case map_of m2 ''argument-hint'' of Some (VList hs) \<Rightarrow> False | _ \<Rightarrow> True"
    using h by (auto simp: fix_argument_hint_list_def map_of_update
        split: option.splits pyval.splits)
  have 3: "map_of m3 ''description'' = map_of m2 ''description''"
    using a by (auto simp: add_argument_hint_def Let_def map_of_update
        split: list.splits if_splits)
  have h3: "case map_of m3 ''argument-hint'' of
              Some (VList hs) \<Rightarrow> False
            | Some _ \<Rightarrow> True
            | None \<Rightarrow> \<not> str_in ''$ARGUMENTS'' body \<and> positional_args body = []"
    using a h2
    by (auto simp: add_argument_hint_def Let_def map_of_update
        split: list.splits if_splits option.splits pyval.splits)
  have "fst (fix_metadata md body) = m3"
    by (simp add: fix_metadata_def d h a)
  then show ?thesis
    using 1 2 3 h3 by (simp add: settled_def)
qed

lemma add_bash_settled:
  "settled md body \<Longrightarrow> settled (add_bash_to_allowed_tools md) body"
  by (simp add: settled_def add_bash_other)

lemma Bash_in_appended: "str_in ''Bash'' (s @ '', Bash'')"
  unfolding str_in_sublist by (rule sublist_appendI [of _ "s @ '', ''" "[]", simplified])

lemma apply_fixes_again:
  assumes "apply_fixes md body = Inr (fxs, md')"
  shows "apply_fixes md' body = Inr ([], md')"
proof -
  obtain m f where fm: "fix_metadata md body = (m, f)"
    by (cases "fix_metadata md body")
  have sm: "settled m body"
    using fix_metadata_settled [of md body] fm by simp
  have t: "map_of m ''allowed-tools'' = map_of md ''allowed-tools''"
    using fix_metadata_other [of "''allowed-tools''" md body] fm by simp
  obtain bf where b: "check_bash_permissions md body = Inr bf"
    using assms fm by (cases "check_bash_permissions md body") (auto simp: apply_fixes_def)
  have s': "settled md' body"
    using assms fm b sm by (auto simp: apply_fixes_def add_bash_settled split: if_splits)
  have c: "check_bash_permissions md' body = Inr []"
  proof (cases "bf = []")
    case True
    then have "md' = m" using assms fm b by (simp add: apply_fixes_def)
    then show ?thesis
      using b t True
      by (auto simp: check_bash_permissions_def split: if_splits option.splits pyval.splits)
  next
    case False
    then have "md' = add_bash_to_allowed_tools m"
      using assms fm b by (simp add: apply_fixes_def)
    then have "map_of md' ''allowed-tools''
                 = Some (case map_of md ''allowed-tools'' of
                           None \<Rightarrow> VStr ''Bash''
                         | Some (VList ts) \<Rightarrow> VList (ts @ [''Bash''])
                         | Some (VStr s) \<Rightarrow> VStr (s @ '', Bash'')
                         | Some (VBool b) \<Rightarrow> VStr (str_bool b @ '', Bash''))"
      by (simp add: add_bash_allowed_tools t)
    then show ?thesis
      using b
      by (auto simp: check_bash_permissions_def Bash_in_join Bash_in_appended
          split: if_splits option.splits pyval.splits)
  qed
  show ?thesis
    by (simp add: apply_fixes_def settled_fix_metadata [OF s'] c)
qed

lemma apply_fixes_reread:
  assumes "apply_fixes md body = Inr (fxs, md')" and "map_of reread = map_of md'"
  shows "apply_fixes reread body = Inr ([], reread)"
proof -
  have a: "apply_fixes md' body = Inr ([], md')"
    using assms(1) by (rule apply_fixes_again)
  have "snd (fix_metadata md' body) = []"
    using a by (auto simp: apply_fixes_def split: prod.splits sum.splits if_splits)
  then have "fst (fix_metadata md' body) = md'"
    by (simp add: fix_metadata_changes)
  then have "settled md' body"
    using fix_metadata_settled [of md' body] by simp
  then have s: "settled reread body"
    by (simp add: settled_def assms(2))
  have "check_bash_permissions md' body = Inr []"
    using a by (auto simp: apply_fixes_def split: prod.splits sum.splits if_splits)
  moreover have "check_bash_permissions reread body = check_bash_permissions md' body"
    by (simp add: check_bash_permissions_def assms(2))
  ultimately have c: "check_bash_permissions reread body = Inr []"
    by simp
  show ?thesis
    by (simp add: apply_fixes_def settled_fix_metadata [OF s] c)
qed

text \<open>
  Claim C1, as the code has it. With \<^verbatim>\<open>--dry-run\<close> off, let a first pass end without a
  failure: the document parses (at once or after the repair) and no exception is raised.
  Let the library read back what it has written: the text that \<^verbatim>\<open>frontmatter.dumps\<close>
  gives for the new metadata and the body parses to the same body and to a dictionary with
  the same fields and values (in any order). Then a second pass over the stored document
  returns the empty list and writes nothing, so the stored text stays the same.
\<close>

theorem second_pass_is_clean:
  assumes "parse_with_repair loads content = Inr (frontmatter_fixes, metadata, body)"
      and "apply_fixes metadata body = Inr (later_fixes, new_metadata)"
      and "frontmatter_fixes @ later_fixes \<noteq> []
             \<longrightarrow> (\<exists>reread. loads (dumps new_metadata body) = Inr (reread, body)
                            \<and> map_of reread = map_of new_metadata)"
  shows "let first = stored content (snd (fix_file loads dumps False content))
         in fix_file loads dumps False first = ([], None)
            \<and> stored first (snd (fix_file loads dumps False first)) = first"
proof (cases "frontmatter_fixes @ later_fixes = []")
  case True
  then have "fix_file loads dumps False content = ([], None)"
    using assms(1,2) by (simp add: fix_file_def)
  then show ?thesis by (simp add: stored_def)
next
  case False
  have 1: "fix_file loads dumps False content
             = (frontmatter_fixes @ later_fixes, Some (dumps new_metadata body))"
    using assms(1,2) False by (simp add: fix_file_def)
  obtain reread where l: "loads (dumps new_metadata body) = Inr (reread, body)"
    and m: "map_of reread = map_of new_metadata"
    using assms(3) False by blast
  have 2: "parse_with_repair loads (dumps new_metadata body) = Inr ([], reread, body)"
    using l by (simp add: parse_with_repair_def)
  have 3: "apply_fixes reread body = Inr ([], reread)"
    using assms(2) m by (rule apply_fixes_reread)
  have "fix_file loads dumps False (dumps new_metadata body) = ([], None)"
    by (simp add: fix_file_def 2 3)
  then show ?thesis by (simp add: 1 stored_def)
qed

theorem second_pass_is_clean_witness:
  "parse_with_repair example_loads
       ''---\<newline>allowed-tools: Edit\<newline>---\<newline>\<newline>List files: !`ls`''
     = Inr ([], [(''allowed-tools'', VStr ''Edit'')], ''List files: !`ls`'')
   \<and> apply_fixes [(''allowed-tools'', VStr ''Edit'')] ''List files: !`ls`''
     = Inr ([''Bash commands found but Bash not in allowed-tools''],
            [(''allowed-tools'', VStr ''Edit, Bash'')])
   \<and> example_loads (example_dumps [(''allowed-tools'', VStr ''Edit, Bash'')] ''List files: !`ls`'')
     = Inr ([(''allowed-tools'', VStr ''Edit, Bash'')], ''List files: !`ls`'')
   \<and> stored ''---\<newline>allowed-tools: Edit\<newline>---\<newline>\<newline>List files: !`ls`''
        (snd (fix_file example_loads example_dumps False
                ''---\<newline>allowed-tools: Edit\<newline>---\<newline>\<newline>List files: !`ls`''))
     = ''---\<newline>allowed-tools: Edit, Bash\<newline>---\<newline>\<newline>List files: !`ls`''
   \<and> fix_file example_loads example_dumps False
        ''---\<newline>allowed-tools: Edit, Bash\<newline>---\<newline>\<newline>List files: !`ls`''
     = ([], None)"
proof -
  have r: "example_loads
       (example_dumps [(''allowed-tools'', VStr ''Edit, Bash'')] ''List files: !`ls`'')
     = Inr ([(''allowed-tools'', VStr ''Edit, Bash'')], ''List files: !`ls`'')"
    unfolding example_edit_dumps by (simp add: example_loads_def)
  have f: "fix_file example_loads example_dumps False
             ''---\<newline>allowed-tools: Edit\<newline>---\<newline>\<newline>List files: !`ls`''
     = ([''Bash commands found but Bash not in allowed-tools''],
        Some ''---\<newline>allowed-tools: Edit, Bash\<newline>---\<newline>\<newline>List files: !`ls`'')"
    by (simp add: fix_file_def example_edit_parse example_edit_fixes example_edit_dumps)
  have s: "stored ''---\<newline>allowed-tools: Edit\<newline>---\<newline>\<newline>List files: !`ls`''
        (snd (fix_file example_loads example_dumps False
                ''---\<newline>allowed-tools: Edit\<newline>---\<newline>\<newline>List files: !`ls`''))
     = ''---\<newline>allowed-tools: Edit, Bash\<newline>---\<newline>\<newline>List files: !`ls`''"
    by (simp add: f stored_def)
  have r': "\<exists>reread.
       example_loads (example_dumps [(''allowed-tools'', VStr ''Edit, Bash'')] ''List files: !`ls`'')
         = Inr (reread, ''List files: !`ls`'')
       \<and> map_of reread = map_of [(''allowed-tools'', VStr ''Edit, Bash'')]"
    using r by blast
  note t = second_pass_is_clean [where loads = example_loads and dumps = example_dumps,
      OF example_edit_parse example_edit_fixes impI [OF r'], unfolded Let_def s]
  from t have c: "fix_file example_loads example_dumps False
        ''---\<newline>allowed-tools: Edit, Bash\<newline>---\<newline>\<newline>List files: !`ls`''
     = ([], None)"
    by (rule conjunct1)
  from example_edit_parse example_edit_fixes r s c show ?thesis by (intro conjI)
qed

lemma example_true_fixes:
  "apply_fixes [(''allowed-tools'', VBool True)] ''List files: !`ls`''
     = Inl ([], TypeError ''argument of type 'bool' is not iterable'')"
  by code_simp

theorem failure_repeats_on_second_pass:
  "fix_file example_loads example_dumps False
       ''---\<newline>allowed-tools: true\<newline>---\<newline>\<newline>List files: !`ls`''
     = ([''Unexpected error: argument of type 'bool' is not iterable''], None)
   \<and> fix_file example_loads example_dumps False
       (stored ''---\<newline>allowed-tools: true\<newline>---\<newline>\<newline>List files: !`ls`''
          (snd (fix_file example_loads example_dumps False
                  ''---\<newline>allowed-tools: true\<newline>---\<newline>\<newline>List files: !`ls`'')))
     = ([''Unexpected error: argument of type 'bool' is not iterable''], None)"
proof -
  have p: "parse_with_repair example_loads
       ''---\<newline>allowed-tools: true\<newline>---\<newline>\<newline>List files: !`ls`''
     = Inr ([], [(''allowed-tools'', VBool True)], ''List files: !`ls`'')"
    by (simp add: parse_with_repair_def example_loads_def)
  have f: "fix_file example_loads example_dumps False
       ''---\<newline>allowed-tools: true\<newline>---\<newline>\<newline>List files: !`ls`''
     = ([''Unexpected error: argument of type 'bool' is not iterable''], None)"
    by (simp add: fix_file_def p example_true_fixes)
  show ?thesis
    by (simp add: f stored_def)
qed

subsection \<open>The text of a list and the word \<^verbatim>\<open>Bash\<close>\<close>

lemma hex_digit_not_B: "d < 16 \<Longrightarrow> hex_digit d \<noteq> CHR ''B''"
proof -
  assume "d < 16"
  then have "hex_digit d \<in> set ''0123456789abcdef''"
    unfolding hex_digit_def by (intro nth_mem) simp
  then show ?thesis by auto
qed

lemma repr_char_cases:
  assumes "q = squote \<or> q = dquote"
  shows "repr_char q c = [c]
         \<or> (\<exists>r. repr_char q c = backslash # r \<and> CHR ''B'' \<notin> set r \<and> c \<notin> set ''Bash'')"
proof -
  have h1: "hex_digit (of_char c div 16) \<noteq> CHR ''B''"
    by (rule hex_digit_not_B) (simp add: less_mult_imp_div_less)
  have h2: "hex_digit (of_char c mod 16) \<noteq> CHR ''B''"
    by (rule hex_digit_not_B) simp
  have p: "c \<notin> set ''Bash''" if "\<not> printable c"
    using that by (auto simp: printable_def)
  have "c \<notin> set ''Bash''" if "c = q"
    using that assms by (auto simp: squote_def dquote_def)
  then show ?thesis
    using h1 h2 p
    by (auto simp: repr_char_def backslash_def newline_def)
qed

lemma prefix_repr:
  assumes "q = squote \<or> q = dquote" and "set p \<subseteq> set ''Bash''"
  shows "prefix p (concat (map (repr_char q) s)) \<longleftrightarrow> prefix p s"
  using assms(2)
proof (induction p arbitrary: s)
  case Nil
  then show ?case by simp
next
  case (Cons h p)
  have hb: "h \<noteq> backslash" and hs: "h \<in> set ''Bash''"
    using Cons.prems by (auto simp: backslash_def)
  show ?case
  proof (cases s)
    case Nil
    then show ?thesis by simp
  next
    case (Cons d t)
    from repr_char_cases [OF assms(1), of d]
    show ?thesis
    proof
      assume "repr_char q d = [d]"
      then show ?thesis
        using Cons Cons.IH [of t] Cons.prems by simp
    next
      assume "\<exists>r. repr_char q d = backslash # r \<and> CHR ''B'' \<notin> set r \<and> d \<notin> set ''Bash''"
      then obtain r where "repr_char q d = backslash # r" and "d \<notin> set ''Bash''"
        by blast
      then show ?thesis
        using Cons hb hs by auto
    qed
  qed
qed

lemma sublist_skip:
  "p \<noteq> [] \<Longrightarrow> hd p \<notin> set u \<Longrightarrow> sublist p (u @ x) \<longleftrightarrow> sublist p x"
proof (induction u)
  case Nil
  then show ?case by simp
next
  case (Cons c u)
  then have "\<not> prefix p (c # u @ x)"
    by (cases p) auto
  then show ?case
    using Cons by (simp add: sublist_Cons_right)
qed

lemma sublist_repr:
  assumes "q = squote \<or> q = dquote"
  shows "sublist ''Bash'' (concat (map (repr_char q) s)) \<longleftrightarrow> sublist ''Bash'' s"
proof (induction s)
  case Nil
  then show ?case by simp
next
  case (Cons d t)
  from repr_char_cases [OF assms, of d]
  show ?case
  proof
    assume e: "repr_char q d = [d]"
    have "prefix ''Bash'' (d # concat (map (repr_char q) t)) \<longleftrightarrow> prefix ''Bash'' (d # t)"
      using prefix_repr [OF assms, of "''Bash''" "d # t"] e by simp
    then show ?thesis
      using Cons e by (simp add: sublist_Cons_right)
  next
    assume "\<exists>r. repr_char q d = backslash # r \<and> CHR ''B'' \<notin> set r \<and> d \<notin> set ''Bash''"
    then obtain r where e: "repr_char q d = backslash # r"
      and r: "CHR ''B'' \<notin> set r" and d: "d \<notin> set ''Bash''"
      by blast
    have "sublist ''Bash'' ((backslash # r) @ concat (map (repr_char q) t))
            \<longleftrightarrow> sublist ''Bash'' (concat (map (repr_char q) t))"
      by (rule sublist_skip) (use r in \<open>simp_all add: backslash_def\<close>)
    moreover have "sublist ''Bash'' (d # t) \<longleftrightarrow> sublist ''Bash'' t"
      using d by (auto simp: sublist_Cons_right)
    ultimately show ?thesis
      using Cons e by simp
  qed
qed

lemma sublist_repr_str: "sublist ''Bash'' (repr_str s) \<longleftrightarrow> sublist ''Bash'' s"
proof -
  define q where "q = (if squote \<in> set s \<and> dquote \<notin> set s then dquote else squote)"
  have q: "q = squote \<or> q = dquote" and n: "q \<notin> set ''Bash''"
    by (auto simp: q_def squote_def dquote_def)
  have "sublist ''Bash'' (q # concat (map (repr_char q) s) @ [q])
          \<longleftrightarrow> sublist ''Bash'' (concat (map (repr_char q) s))"
    using n sublist_across_char [of q "''Bash''" "concat (map (repr_char q) s)" "[]"]
    by (simp add: sublist_behind_char)
  then show ?thesis
    using sublist_repr [OF q] by (simp add: repr_str_def q_def Let_def)
qed

lemma Bash_in_repr_list:
  "str_in ''Bash'' (repr_list ts) \<longleftrightarrow> (\<exists>t \<in> set ts. str_in ''Bash'' t)"
proof -
  have "sublist ''Bash'' (CHR ''['' # join '', '' (map repr_str ts) @ '']'')
          \<longleftrightarrow> sublist ''Bash'' (join '', '' (map repr_str ts))"
    using sublist_across_char [of "CHR '']''" "''Bash''" "join '', '' (map repr_str ts)" "[]"]
    by (simp add: sublist_behind_char)
  also have "\<dots> \<longleftrightarrow> (\<exists>x \<in> set (map repr_str ts). sublist ''Bash'' x)"
    by (rule sublist_join) simp_all
  also have "\<dots> \<longleftrightarrow> (\<exists>t \<in> set ts. sublist ''Bash'' t)"
    by (simp add: sublist_repr_str)
  finally show ?thesis
    by (simp add: repr_list_def str_in_sublist)
qed

text \<open>
  Claim C9. The body of a document contains a shell-execution marker and \<^verbatim>\<open>allowed-tools\<close>
  is present as a string or as a sequence. Then the check of the fixer returns no fix, and
  the check of the validator adds no error, exactly when the string, or the sequence joined
  by commas, contains \<^verbatim>\<open>Bash\<close>; for a sequence that is when one entry contains \<^verbatim>\<open>Bash\<close>, so
  such an entry suppresses the fix and the error.
\<close>

theorem bash_declared_by_substring:
  assumes "bash_commands body \<noteq> []"
      and "map_of metadata ''allowed-tools'' = Some v"
      and "\<forall>b. v \<noteq> VBool b"
  shows "let shown = (case v of VStr s \<Rightarrow> s | VList ts \<Rightarrow> join '', '' ts | VBool b \<Rightarrow> [])
         in check_bash_permissions metadata body
              = Inr (if str_in ''Bash'' shown then []
                     else [''Bash commands found but Bash not in allowed-tools''])
            \<and> check_bash_allowed (Some metadata) r
                = (if str_in ''Bash'' shown then r else add_error bash_error r)
            \<and> (\<forall>ts. v = VList ts
                  \<longrightarrow> (str_in ''Bash'' shown \<longleftrightarrow> (\<exists>t \<in> set ts. str_in ''Bash'' t)))"
proof (cases v)
  case (VStr s)
  have "metadata \<noteq> []" using assms(2) by auto
  then show ?thesis
    using assms(1,2) VStr
    by (simp add: check_bash_permissions_def check_bash_allowed_def bash_error_def)
next
  case (VBool b)
  then show ?thesis using assms(3) by simp
next
  case (VList ts)
  have "metadata \<noteq> []" using assms(2) by auto
  then show ?thesis
    using assms(1,2) VList
    by (simp add: check_bash_permissions_def check_bash_allowed_def bash_error_def
        Bash_in_join Bash_in_repr_list)
qed

theorem bash_declared_by_substring_witness:
  "bash_commands ''List files: !`ls`'' \<noteq> []
   \<and> check_bash_permissions [(''allowed-tools'', VList [''Edit'', ''Bash(git status:*)''])]
         ''List files: !`ls`'' = Inr []
   \<and> check_bash_allowed (Some [(''allowed-tools'', VList [''Edit'', ''Bash(git status:*)''])])
         \<lparr>file_path = ''commands/ls.md'', is_valid = True, errors = [], warnings = [], info = []\<rparr>
       = \<lparr>file_path = ''commands/ls.md'', is_valid = True, errors = [], warnings = [], info = []\<rparr>
   \<and> check_bash_permissions [(''allowed-tools'', VStr ''Edit, Bashful'')]
         ''List files: !`ls`'' = Inr []
   \<and> check_bash_allowed (Some [(''allowed-tools'', VStr ''Edit, Bashful'')])
         \<lparr>file_path = ''commands/ls.md'', is_valid = True, errors = [], warnings = [], info = []\<rparr>
       = \<lparr>file_path = ''commands/ls.md'', is_valid = True, errors = [], warnings = [], info = []\<rparr>
   \<and> check_bash_permissions [(''allowed-tools'', VStr ''Edit'')] ''List files: !`ls`''
       = Inr [''Bash commands found but Bash not in allowed-tools'']
   \<and> check_bash_allowed (Some [(''allowed-tools'', VStr ''Edit'')])
         \<lparr>file_path = ''commands/ls.md'', is_valid = True, errors = [], warnings = [], info = []\<rparr>
       = \<lparr>file_path = ''commands/ls.md'', is_valid = False, errors = [bash_error],
           warnings = [], info = []\<rparr>"
proof -
  let ?r = "\<lparr>file_path = ''commands/ls.md'', is_valid = True, errors = [], warnings = [],
              info = []\<rparr>"
  have b: "bash_commands ''List files: !`ls`'' \<noteq> []"
    by (simp add: example_body_commands)
  have s1: "str_in ''Bash'' (join '', '' [''Edit'', ''Bash(git status:*)''])" by simp
  have s2: "str_in ''Bash'' ''Edit, Bashful''" by simp
  have s3: "\<not> str_in ''Bash'' ''Edit''" by simp
  note t1 = bash_declared_by_substring [OF b,
      of "[(''allowed-tools'', VList [''Edit'', ''Bash(git status:*)''])]"
         "VList [''Edit'', ''Bash(git status:*)'']" ?r, unfolded Let_def pyval.case if_P [OF s1]]
  note t2 = bash_declared_by_substring [OF b,
      of "[(''allowed-tools'', VStr ''Edit, Bashful'')]" "VStr ''Edit, Bashful''" ?r,
      unfolded Let_def pyval.case if_P [OF s2]]
  note t3 = bash_declared_by_substring [OF b,
      of "[(''allowed-tools'', VStr ''Edit'')]" "VStr ''Edit''" ?r,
      unfolded Let_def pyval.case if_not_P [OF s3]]
  have c1: "check_bash_permissions [(''allowed-tools'', VList [''Edit'', ''Bash(git status:*)''])]
         ''List files: !`ls`'' = Inr []
     \<and> check_bash_allowed (Some [(''allowed-tools'', VList [''Edit'', ''Bash(git status:*)''])]) ?r
         = ?r"
    using t1 by simp
  have c2: "check_bash_permissions [(''allowed-tools'', VStr ''Edit, Bashful'')]
         ''List files: !`ls`'' = Inr []
     \<and> check_bash_allowed (Some [(''allowed-tools'', VStr ''Edit, Bashful'')]) ?r = ?r"
    using t2 by simp
  have c3: "check_bash_permissions [(''allowed-tools'', VStr ''Edit'')] ''List files: !`ls`''
       = Inr [''Bash commands found but Bash not in allowed-tools'']
     \<and> check_bash_allowed (Some [(''allowed-tools'', VStr ''Edit'')]) ?r
         = add_error bash_error ?r"
    using t3 by simp
  from b c1 c2 c3 show ?thesis
    by (simp add: add_error_def)
qed

subsection \<open>The input dictionary after the fixer has run\<close>

text \<open>
  Claim C3 says that the fixer leaves the metadata of its input unchanged. The code copies
  the dictionary in \<^verbatim>\<open>_fix_metadata\<close> and again in \<^verbatim>\<open>_add_bash_to_allowed_tools\<close>, but both
  copies hold the list of the input, and \<^verbatim>\<open>tools.append('Bash')\<close> changes that list. The
  input dictionary \<^verbatim>\<open>{'allowed-tools': ['Edit']}\<close>, with its list at address 0, and the body
  \<^verbatim>\<open>List files: !`ls`\<close>: the fixer records the missing permission, and afterwards the
  input dictionary reads \<^verbatim>\<open>{'allowed-tools': ['Edit', 'Bash']}\<close>.
\<close>

theorem append_changes_the_input:
  "view example_store [(''allowed-tools'', RList 0)] = [(''allowed-tools'', VList [''Edit''])]
   \<and> add_bash_to_allowed_tools_refs example_store [(''allowed-tools'', RList 0)]
       = (example_store(0 := [''Edit'', ''Bash'']), [(''allowed-tools'', RList 0)])
   \<and> apply_fixes_refs example_store [(''allowed-tools'', RList 0)] ''List files: !`ls`''
       = Inr ([''Bash commands found but Bash not in allowed-tools''],
              example_store(0 := [''Edit'', ''Bash'']), [(''allowed-tools'', RList 0)])
   \<and> view (example_store(0 := [''Edit'', ''Bash''])) [(''allowed-tools'', RList 0)]
       = [(''allowed-tools'', VList [''Edit'', ''Bash''])]"
proof -
  have 1: "view example_store [(''allowed-tools'', RList 0)]
             = [(''allowed-tools'', VList [''Edit''])]"
    by (simp add: view_def deref_def example_store_def)
  have 2: "add_bash_to_allowed_tools_refs example_store [(''allowed-tools'', RList 0)]
       = (example_store(0 := [''Edit'', ''Bash'']), [(''allowed-tools'', RList 0)])"
    by (simp add: add_bash_to_allowed_tools_refs_def example_store_def)
  have f: "fix_metadata_refs example_store [(''allowed-tools'', RList 0)] ''List files: !`ls`''
             = ([(''allowed-tools'', RList 0)], [])"
    by (simp add: fix_metadata_refs_def fix_description_refs_def
        fix_argument_hint_list_refs_def add_argument_hint_refs_def example_body_plain)
  have c: "check_bash_permissions_refs example_store [(''allowed-tools'', RList 0)]
             ''List files: !`ls`''
             = Inr [''Bash commands found but Bash not in allowed-tools'']"
    by (simp add: check_bash_permissions_refs_def example_body_commands example_store_def)
  have 3: "apply_fixes_refs example_store [(''allowed-tools'', RList 0)] ''List files: !`ls`''
       = Inr ([''Bash commands found but Bash not in allowed-tools''],
              example_store(0 := [''Edit'', ''Bash'']), [(''allowed-tools'', RList 0)])"
    by (simp add: apply_fixes_refs_def f c 2)
  have 4: "view (example_store(0 := [''Edit'', ''Bash''])) [(''allowed-tools'', RList 0)]
       = [(''allowed-tools'', VList [''Edit'', ''Bash''])]"
    by (simp add: view_def deref_def)
  from 1 2 3 4 show ?thesis by (intro conjI)
qed

subsection \<open>The fixes on values and on shared lists\<close>

text \<open>The definitions on values (\<open>apply_fixes\<close>) describe what the dictionaries of the
  definitions with a store read as, when the keys of the input are distinct and no other
  field holds the list of \<^verbatim>\<open>allowed-tools\<close>.\<close>

lemma map_of_view: "map_of (view st m) k = map_option (deref st) (map_of m k)"
  by (induction m) (auto simp: view_def)

lemma view_update:
  "view st (AList.update k v m) = AList.update k (deref st v) (view st m)"
  by (induction m) (auto simp: view_def)

lemma fix_description_refs_view:
  "fix_description (view st m, fx)
     = (view st (fst (fix_description_refs st (m, fx))), snd (fix_description_refs st (m, fx)))"
  by (auto simp: fix_description_def fix_description_refs_def map_of_view view_update
      deref_def split: option.splits ref_val.splits)

lemma fix_argument_hint_list_refs_view:
  "fix_argument_hint_list (view st m, fx)
     = (view st (fst (fix_argument_hint_list_refs st (m, fx))),
        snd (fix_argument_hint_list_refs st (m, fx)))"
  by (auto simp: fix_argument_hint_list_def fix_argument_hint_list_refs_def map_of_view
      view_update deref_def split: option.splits ref_val.splits)

lemma add_argument_hint_refs_view:
  "add_argument_hint body (view st m, fx)
     = (view st (fst (add_argument_hint_refs body (m, fx))),
        snd (add_argument_hint_refs body (m, fx)))"
  by (cases "positional_args body")
    (simp_all add: add_argument_hint_def add_argument_hint_refs_def Let_def map_of_view
      view_update deref_def)

lemma fix_metadata_refs_view:
  "fix_metadata (view st md) body
     = (view st (fst (fix_metadata_refs st md body)), snd (fix_metadata_refs st md body))"
proof -
  obtain m1 f1 where 1: "fix_description_refs st (md, []) = (m1, f1)"
    by (cases "fix_description_refs st (md, [])")
  obtain m2 f2 where 2: "fix_argument_hint_list_refs st (m1, f1) = (m2, f2)"
    by (cases "fix_argument_hint_list_refs st (m1, f1)")
  show ?thesis
    using fix_description_refs_view [of st md "[]"]
      fix_argument_hint_list_refs_view [of st m1 f1]
      add_argument_hint_refs_view [of body st m2 f2]
    by (simp add: fix_metadata_def fix_metadata_refs_def 1 2)
qed

lemma check_bash_permissions_refs_view:
  "check_bash_permissions (view st md) body = check_bash_permissions_refs st md body"
  by (auto simp: check_bash_permissions_def check_bash_permissions_refs_def map_of_view
      deref_def split: option.splits ref_val.splits)

lemma view_Cons: "view st ((k, v) # m) = (k, deref st v) # view st m"
  by (simp add: view_def)

lemma deref_same:
  "\<forall>b. b \<noteq> a \<longrightarrow> st2 b = st b \<Longrightarrow> v \<noteq> RList a \<Longrightarrow> deref st2 v = deref st v"
  by (cases v) (auto simp: deref_def)

lemma view_store_update:
  assumes "\<forall>b. b \<noteq> a \<longrightarrow> st2 b = st b"
      and "\<forall>k. (k, RList a) \<in> set m \<longrightarrow> k = ''allowed-tools''"
      and "distinct (map fst m)"
  shows "AList.update ''allowed-tools'' x (view st2 m)
           = AList.update ''allowed-tools'' x (view st m)"
  using assms(2,3)
proof (induction m)
  case Nil
  then show ?case by (simp add: view_def)
next
  case (Cons kv m)
  obtain k v where kv: "kv = (k, v)" by (cases kv)
  show ?case
  proof (cases "k = ''allowed-tools''")
    case True
    have h: "deref st2 (snd e) = deref st (snd e)" if "e \<in> set m" for e
    proof -
      have "fst e \<noteq> ''allowed-tools''"
        using Cons.prems(2) that kv True by force
      then have "snd e \<noteq> RList a"
        using Cons.prems(1) that by (metis list.set_intros(2) prod.collapse)
      then show ?thesis using assms(1) by (rule deref_same [rotated])
    qed
    have "view st2 m = view st m"
      unfolding view_def by (rule map_cong [OF refl]) (simp only: h)
    then show ?thesis unfolding kv True view_Cons by simp
  next
    case False
    then have "v \<noteq> RList a"
      using Cons.prems(1) kv by auto
    then have "deref st2 v = deref st v"
      using assms(1) by (rule deref_same [rotated])
    moreover have "AList.update ''allowed-tools'' x (view st2 m)
                     = AList.update ''allowed-tools'' x (view st m)"
      using Cons by simp
    ultimately show ?thesis
      unfolding kv view_Cons using False by simp
  qed
qed

lemma add_bash_refs_view:
  assumes "\<forall>k a. (k, RList a) \<in> set m \<longrightarrow> map_of m ''allowed-tools'' = Some (RList a)
             \<longrightarrow> k = ''allowed-tools''"
      and "distinct (map fst m)"
  shows "view (fst (add_bash_to_allowed_tools_refs st m))
           (snd (add_bash_to_allowed_tools_refs st m))
         = add_bash_to_allowed_tools (view st m)"
proof (cases "map_of m ''allowed-tools''")
  case None
  then show ?thesis
    by (simp add: add_bash_to_allowed_tools_refs_def add_bash_to_allowed_tools_def
        map_of_view view_update deref_def)
next
  case (Some v)
  show ?thesis
  proof (cases v)
    case (RList a)
    have "\<forall>k. (k, RList a) \<in> set m \<longrightarrow> k = ''allowed-tools''"
      using assms(1) Some RList by blast
    then have "AList.update ''allowed-tools'' (VList (st a @ [''Bash'']))
                 (view (st(a := st a @ [''Bash''])) m)
               = AList.update ''allowed-tools'' (VList (st a @ [''Bash''])) (view st m)"
      using assms(2) by (intro view_store_update [of a]) simp_all
    then show ?thesis
      using Some RList
      by (simp add: add_bash_to_allowed_tools_refs_def add_bash_to_allowed_tools_def
          map_of_view view_update deref_def)
  qed (use Some in \<open>simp_all add: add_bash_to_allowed_tools_refs_def
        add_bash_to_allowed_tools_def map_of_view view_update deref_def\<close>)
qed

lemma update_entries:
  "(k, v) \<in> set (AList.update k' v' m) \<Longrightarrow> (k, v) \<in> set m \<or> (k = k' \<and> v = v')"
  by (induction m) (auto split: if_splits)

text \<open>A step that stores strings only: no entry with a list is new, the keys stay
  distinct and \<^verbatim>\<open>allowed-tools\<close> keeps its value.\<close>

lemma fix_description_refs_keeps:
  "(k, RList a) \<in> set (fst (fix_description_refs st (m, fx))) \<Longrightarrow> (k, RList a) \<in> set m"
  "distinct (map fst m) \<Longrightarrow> distinct (map fst (fst (fix_description_refs st (m, fx))))"
  "map_of (fst (fix_description_refs st (m, fx))) ''allowed-tools'' = map_of m ''allowed-tools''"
  by (auto simp: fix_description_refs_def distinct_update map_of_update
      dest!: update_entries split: option.splits ref_val.splits)

lemma fix_argument_hint_list_refs_keeps:
  "(k, RList a) \<in> set (fst (fix_argument_hint_list_refs st (m, fx))) \<Longrightarrow> (k, RList a) \<in> set m"
  "distinct (map fst m)
     \<Longrightarrow> distinct (map fst (fst (fix_argument_hint_list_refs st (m, fx))))"
  "map_of (fst (fix_argument_hint_list_refs st (m, fx))) ''allowed-tools''
     = map_of m ''allowed-tools''"
  by (auto simp: fix_argument_hint_list_refs_def distinct_update map_of_update
      dest!: update_entries split: option.splits ref_val.splits)

lemma add_argument_hint_refs_keeps:
  "(k, RList a) \<in> set (fst (add_argument_hint_refs body (m, fx))) \<Longrightarrow> (k, RList a) \<in> set m"
  "distinct (map fst m) \<Longrightarrow> distinct (map fst (fst (add_argument_hint_refs body (m, fx))))"
  "map_of (fst (add_argument_hint_refs body (m, fx))) ''allowed-tools''
     = map_of m ''allowed-tools''"
  by (cases "positional_args body";
      auto simp: add_argument_hint_refs_def Let_def distinct_update map_of_update
        dest!: update_entries split: if_splits)+

lemma fix_metadata_refs_keeps:
  "(k, RList a) \<in> set (fst (fix_metadata_refs st md body)) \<Longrightarrow> (k, RList a) \<in> set md"
  "distinct (map fst md) \<Longrightarrow> distinct (map fst (fst (fix_metadata_refs st md body)))"
  "map_of (fst (fix_metadata_refs st md body)) ''allowed-tools'' = map_of md ''allowed-tools''"
proof -
  obtain m1 f1 where 1: "fix_description_refs st (md, []) = (m1, f1)"
    by (cases "fix_description_refs st (md, [])")
  obtain m2 f2 where 2: "fix_argument_hint_list_refs st (m1, f1) = (m2, f2)"
    by (cases "fix_argument_hint_list_refs st (m1, f1)")
  have r: "fix_metadata_refs st md body = add_argument_hint_refs body (m2, f2)"
    by (simp add: fix_metadata_refs_def 1 2)
  show "(k, RList a) \<in> set (fst (fix_metadata_refs st md body)) \<Longrightarrow> (k, RList a) \<in> set md"
    using add_argument_hint_refs_keeps(1) [of k a body m2 f2]
      fix_argument_hint_list_refs_keeps(1) [of k a st m1 f1]
      fix_description_refs_keeps(1) [of k a st md "[]"]
    by (simp add: r 1 2)
  show "distinct (map fst md) \<Longrightarrow> distinct (map fst (fst (fix_metadata_refs st md body)))"
    using add_argument_hint_refs_keeps(2) [of m2 body f2]
      fix_argument_hint_list_refs_keeps(2) [of m1 st f1]
      fix_description_refs_keeps(2) [of md st "[]"]
    by (simp add: r 1 2)
  show "map_of (fst (fix_metadata_refs st md body)) ''allowed-tools''
          = map_of md ''allowed-tools''"
    using add_argument_hint_refs_keeps(3) [of body m2 f2]
      fix_argument_hint_list_refs_keeps(3) [of st m1 f1]
      fix_description_refs_keeps(3) [of st md "[]"]
    by (simp add: r 1 2)
qed

lemma store_model_agrees:
  assumes "distinct (map fst md)"
      and "\<forall>k a. (k, RList a) \<in> set md \<longrightarrow> map_of md ''allowed-tools'' = Some (RList a)
             \<longrightarrow> k = ''allowed-tools''"
  shows "apply_fixes (view st md) body
           = (case apply_fixes_refs st md body of
                Inl failure \<Rightarrow> Inl failure
              | Inr (fxs, st', md') \<Rightarrow> Inr (fxs, view st' md'))"
proof -
  obtain m f where fm: "fix_metadata_refs st md body = (m, f)"
    by (cases "fix_metadata_refs st md body")
  have v: "fix_metadata (view st md) body = (view st m, f)"
    using fix_metadata_refs_view [of st md body] fm by simp
  have d: "distinct (map fst m)"
    using fix_metadata_refs_keeps(2) [OF assms(1), of st body] fm by simp
  have e: "\<forall>k a. (k, RList a) \<in> set m \<longrightarrow> map_of m ''allowed-tools'' = Some (RList a)
             \<longrightarrow> k = ''allowed-tools''"
    using assms(2) fix_metadata_refs_keeps(1) [of _ _ st md body]
      fix_metadata_refs_keeps(3) [of st md body] fm
    by auto
  obtain st' m' where a: "add_bash_to_allowed_tools_refs st m = (st', m')"
    by (cases "add_bash_to_allowed_tools_refs st m")
  have w: "view st' m' = add_bash_to_allowed_tools (view st m)"
    using add_bash_refs_view [OF e d, of st] a by simp
  show ?thesis
    by (cases "check_bash_permissions_refs st md body")
      (simp_all add: apply_fixes_def apply_fixes_refs_def v fm a w
        check_bash_permissions_refs_view)
qed

end
